theory Spec2Isabelle
  imports Complex_Main
begin

section \<open>The entity-component store\<close>

text \<open>
  The simulation keeps its state in a bitecs world. Entities are array indices; every
  component field (\<^verbatim>\<open>Position.x\<close>, \<^verbatim>\<open>Attack.timer\<close>, ...) is one array indexed by
  the entity id, and the world records which components an entity carries. JavaScript
  numbers are modelled as real numbers and the arithmetic of the systems as exact; NaN,
  infinities and signed zeros are outside the model. In \<^verbatim>\<open>calculateMonsterStats\<close>,
  which floors products with the constants 0.3, 0.1 and 0.2, the rounding of every
  operation to a double is modelled, since it decides the integer that comes out.
\<close>

text \<open>
  Modelled from the spec: \<^verbatim>\<open>components.ts\<close> is not among the sources. The components
  are those \<^verbatim>\<open>queries.ts\<close> and \<^verbatim>\<open>spawn.ts\<close> import, and the fields are the ones
  section 3 of the specification lists and the systems read and write.
\<close>

datatype component =
    Position | Velocity | Health | Attack | Defense | Monster | Mergeable | Collider
  | Sprite | AI | PlayerControlled | Enemy | Knockback | Overlap

datatype field =
    Position_x | Position_y
  | Velocity_x | Velocity_y
  | Health_current | Health_max
  | Attack_damage | Attack_range | Attack_cooldown | Attack_timer
  | Defense_value
  | Monster_type | Monster_level
  | Mergeable_canMerge
  | Collider_radius | Collider_isTrigger
  | Sprite_typeId | Sprite_animationFrame | Sprite_scale | Sprite_rotation | Sprite_opacity
  | AI_state | AI_targetEntity | AI_detectionRange | AI_decisionTimer
  | Knockback_force | Knockback_direction | Knockback_remaining

text \<open>
  Modelled from the spec: \<^verbatim>\<open>types.ts\<close> is not among the sources. The events carry what
  the systems push, the configuration is the record \<^verbatim>\<open>DEFAULT_CONFIG\<close> fills, and the
  world has the fields the constructor of \<^verbatim>\<open>Game\<close> sets.
\<close>

datatype GameEvent =
    MONSTER_SPAWNED nat "real \<times> real" real real bool
      \<comment> \<open>entity, position, type, level, isPlayer\<close>
  | MONSTER_DAMAGED nat nat real "real \<times> real"
      \<comment> \<open>entity, attacker, damage, position\<close>

record GameConfig =
  arenaWidth :: real
  arenaHeight :: real
  baseSpawnInterval :: real
  monsterTypes :: real
  maxLevel :: real
  initialPlayerMonsters :: real

text \<open>
  \<open>entities\<close>, \<open>nextEid\<close> and \<open>comps\<close> are the part of the world bitecs owns: the
  living entity ids (in the order queries iterate them), the id the next \<open>addEntity\<close>
  hands out, and the components of each entity. \<open>store\<close> holds the component arrays.
  The other fields are the ones \<^verbatim>\<open>Game\<close>'s constructor adds.
\<close>

record GameWorld =
  entities :: "nat list"
  nextEid :: nat
  comps :: "nat \<Rightarrow> component set"
  store :: "field \<Rightarrow> nat \<Rightarrow> real"
  time :: real
  delta :: real
  config :: GameConfig
  events :: "GameEvent list"
  deadEntities :: "nat list"
  entitiesToRemove :: "nat list"
  playerEntities :: "nat list"
  spawnTimer :: real

text \<open>Reading and writing one cell of a component array.\<close>

definition rd :: "GameWorld \<Rightarrow> field \<Rightarrow> nat \<Rightarrow> real" where
  "rd w f e = store w f e"

definition wr :: "field \<Rightarrow> nat \<Rightarrow> real \<Rightarrow> GameWorld \<Rightarrow> GameWorld" where
  "wr f e v w = w\<lparr>store := (store w)(f := (store w f)(e := v))\<rparr>"

text \<open>
  The functions of the bitecs library the systems call. \<open>addEntity\<close> hands out the next
  id; \<open>removeEntity\<close> does nothing for an id that is not alive, and otherwise takes the
  entity out of the world and of every query and clears its components, leaving the
  component arrays as they are. It knows nothing of the fields the game adds to the world.
  A query returns the living entities that carry all its components, in the order of
  \<open>entities\<close>.
\<close>

definition addEntity :: "GameWorld \<Rightarrow> nat \<times> GameWorld" where
  "addEntity w =
     (nextEid w, w\<lparr>entities := entities w @ [nextEid w], nextEid := Suc (nextEid w)\<rparr>)"

definition hasComponent :: "GameWorld \<Rightarrow> component \<Rightarrow> nat \<Rightarrow> bool" where
  "hasComponent w c e = (c \<in> comps w e)"

definition addComponent :: "component \<Rightarrow> nat \<Rightarrow> GameWorld \<Rightarrow> GameWorld" where
  "addComponent c e w = w\<lparr>comps := (comps w)(e := insert c (comps w e))\<rparr>"

definition removeEntity :: "nat \<Rightarrow> GameWorld \<Rightarrow> GameWorld" where
  "removeEntity e w =
     (if e \<in> set (entities w)
      then w\<lparr>entities := removeAll e (entities w), comps := (comps w)(e := {})\<rparr>
      else w)"

definition defineQuery :: "component list \<Rightarrow> GameWorld \<Rightarrow> nat list" where
  "defineQuery cs w = filter (\<lambda>e. list_all (\<lambda>c. hasComponent w c e) cs) (entities w)"

definition healthQuery :: "GameWorld \<Rightarrow> nat list" where
  "healthQuery = defineQuery [Health]"

definition attackerQuery :: "GameWorld \<Rightarrow> nat list" where
  "attackerQuery = defineQuery [Position, Attack]"

definition damageableQuery :: "GameWorld \<Rightarrow> nat list" where
  "damageableQuery = defineQuery [Position, Health]"

definition knockbackQuery :: "GameWorld \<Rightarrow> nat list" where
  "knockbackQuery = defineQuery [Position, Knockback]"

text \<open>\<^verbatim>\<open>Math.atan2(y, x)\<close>: the angle of the point \<open>(x, y)\<close>, in \<open>(-\<pi>, \<pi>]\<close>.\<close>

definition atan2 :: "real \<Rightarrow> real \<Rightarrow> real" where
  "atan2 y x =
     (if 0 < x then arctan (y / x)
      else if x < 0 \<and> 0 \<le> y then arctan (y / x) + pi
      else if x < 0 then arctan (y / x) - pi
      else if 0 < y then pi / 2
      else if y < 0 then - (pi / 2)
      else 0)"

section \<open>Stat scaling and monster creation (systems/spawn.ts)\<close>

text \<open>
  Double-precision arithmetic: the result of an operation is the exact result rounded to
  the nearest double, ties to even. \<open>rne\<close> rounds to the nearest integer, ties to even;
  \<open>ulp x\<close> is the spacing of the doubles in the binade of \<open>x\<close>, 52 binary places
  below its leading bit; \<open>fl\<close> rounds a real number to the nearest double. The exponent
  is not bounded: results beyond the largest double and subnormal ones are outside the
  model, and the level curves reach neither for a level that is a double of magnitude
  below \<open>2 ^ 1000\<close>.
\<close>

definition rne :: "real \<Rightarrow> int" where
  "rne x =
     (let n = \<lfloor>x\<rfloor>; r = x - of_int n
      in if r < 1 / 2 then n
         else if 1 / 2 < r then n + 1
         else if even n then n else n + 1)"

definition ulp :: "real \<Rightarrow> real" where
  "ulp x = 2 powr (of_int \<lfloor>log 2 \<bar>x\<bar>\<rfloor> - 52)"

definition fl :: "real \<Rightarrow> real" where
  "fl x = sgn x * (of_int (rne (\<bar>x\<bar> / ulp x)) * ulp x)"

record MonsterStats =
  health :: real
  attack :: real
  defense :: real
  speed :: real
  radius :: real

definition FIRE :: real where "FIRE = 0"
definition WATER :: real where "WATER = 1"
definition EARTH :: real where "EARTH = 2"
definition AIR :: real where "AIR = 3"

definition BASE_MONSTER_STATS :: "real \<Rightarrow> MonsterStats option" where
  "BASE_MONSTER_STATS ty =
     (if ty = FIRE then
        Some \<lparr>health = 100, attack = 15, defense = 5, speed = 120, radius = 25\<rparr>
      else if ty = WATER then
        Some \<lparr>health = 120, attack = 10, defense = 10, speed = 100, radius = 25\<rparr>
      else if ty = EARTH then
        Some \<lparr>health = 150, attack = 8, defense = 15, speed = 80, radius = 25\<rparr>
      else if ty = AIR then
        Some \<lparr>health = 80, attack = 12, defense = 8, speed = 140, radius = 25\<rparr>
      else None)"

text \<open>
  Reading a field of \<^verbatim>\<open>BASE_MONSTER_STATS[type]\<close> when the table has no entry for
  \<^verbatim>\<open>type\<close> throws a TypeError. Each stat is computed as the source writes it:
  \<^verbatim>\<open>level - 1\<close>, times the constant, plus 1, times the base stat, every step rounded
  to a double, and \<^verbatim>\<open>Math.floor\<close> of the result.
\<close>

datatype error = TypeError

definition calculateMonsterStats :: "real \<Rightarrow> real \<Rightarrow> error + MonsterStats" where
  "calculateMonsterStats ty level =
     (case BASE_MONSTER_STATS ty of
        None \<Rightarrow> Inl TypeError
      | Some baseStats \<Rightarrow>
          Inr \<lparr>health =
                 of_int \<lfloor>fl (health baseStats * fl (1 + fl (fl (level - 1) * fl 0.5)))\<rfloor>,
               attack =
                 of_int \<lfloor>fl (attack baseStats * fl (1 + fl (fl (level - 1) * fl 0.3)))\<rfloor>,
               defense =
                 of_int \<lfloor>fl (defense baseStats * fl (1 + fl (fl (level - 1) * fl 0.3)))\<rfloor>,
               speed =
                 of_int \<lfloor>fl (speed baseStats * fl (1 + fl (fl (level - 1) * fl 0.1)))\<rfloor>,
               radius =
                 of_int \<lfloor>fl (radius baseStats * fl (1 + fl (fl (level - 1) * fl 0.2)))\<rfloor>\<rparr>)"

text \<open>
  The components and fields both creation functions set, in the source's order, up to
  and including the Sprite component.
\<close>

definition addMonsterComponents ::
  "nat \<Rightarrow> real \<Rightarrow> real \<Rightarrow> real \<Rightarrow> real \<Rightarrow> MonsterStats \<Rightarrow> real \<Rightarrow> GameWorld \<Rightarrow> GameWorld" where
  "addMonsterComponents entity x y ty level stats canMerge w0 =
     (let w = addComponent Position entity w0;
          w = wr Position_x entity x w;
          w = wr Position_y entity y w;
          w = addComponent Velocity entity w;
          w = wr Velocity_x entity 0 w;
          w = wr Velocity_y entity 0 w;
          w = addComponent Health entity w;
          w = wr Health_current entity (health stats) w;
          w = wr Health_max entity (health stats) w;
          w = addComponent Attack entity w;
          w = wr Attack_damage entity (attack stats) w;
          w = wr Attack_range entity (radius stats * 1.5) w;
          w = wr Attack_cooldown entity 1.0 w;
          w = wr Attack_timer entity 0 w;
          w = addComponent Defense entity w;
          w = wr Defense_value entity (defense stats) w;
          w = addComponent Monster entity w;
          w = wr Monster_type entity ty w;
          w = wr Monster_level entity level w;
          w = addComponent Mergeable entity w;
          w = wr Mergeable_canMerge entity canMerge w;
          w = addComponent Collider entity w;
          w = wr Collider_radius entity (radius stats) w;
          w = wr Collider_isTrigger entity 0 w;
          w = addComponent Sprite entity w;
          w = wr Sprite_typeId entity ty w;
          w = wr Sprite_animationFrame entity 0 w;
          w = wr Sprite_scale entity 1.0 w;
          w = wr Sprite_rotation entity 0 w;
          w = wr Sprite_opacity entity 1.0 w
      in w)"

text \<open>
  A call returns the new entity id, or the error it threw, together with the world as
  the call left it: an exception does not undo the \<open>addEntity\<close> before it.
\<close>

definition createPlayerMonster ::
  "GameWorld \<Rightarrow> real \<Rightarrow> real \<Rightarrow> real \<Rightarrow> real \<Rightarrow> (error + nat) \<times> GameWorld" where
  "createPlayerMonster world x y ty level =
     (let (entity, w0) = addEntity world in
      case calculateMonsterStats ty level of
        Inl err \<Rightarrow> (Inl err, w0)
      | Inr stats \<Rightarrow>
          (let w = addMonsterComponents entity x y ty level stats 1 w0;
               w = addComponent PlayerControlled entity w;
               w = w\<lparr>playerEntities := playerEntities w @ [entity]\<rparr>;
               w = w\<lparr>events := events w @ [MONSTER_SPAWNED entity (x, y) ty level True]\<rparr>
           in (Inr entity, w)))"

definition createEnemyMonster ::
  "GameWorld \<Rightarrow> real \<Rightarrow> real \<Rightarrow> real \<Rightarrow> real \<Rightarrow> (error + nat) \<times> GameWorld" where
  "createEnemyMonster world x y ty level =
     (let (entity, w0) = addEntity world in
      case calculateMonsterStats ty level of
        Inl err \<Rightarrow> (Inl err, w0)
      | Inr stats \<Rightarrow>
          (let w = addMonsterComponents entity x y ty level stats 0 w0;
               w = addComponent AI entity w;
               w = wr AI_state entity 0 w;
               w = wr AI_targetEntity entity 0 w;
               w = wr AI_detectionRange entity (radius stats * 5) w;
               w = wr AI_decisionTimer entity 0 w;
               w = addComponent Enemy entity w;
               w = w\<lparr>events := events w @ [MONSTER_SPAWNED entity (x, y) ty level False]\<rparr>
           in (Inr entity, w)))"

text \<open>
  \<^verbatim>\<open>Math.random()\<close> is modelled by handing \<open>spawnSystem\<close> the six values it draws when
  the timer fires, in the order it draws them: the interval factor, the edge choice, the
  two position draws, the type roll and the level roll.
\<close>

record Rolls =
  rollInterval :: real
  rollEdge :: real
  rollA :: real
  rollB :: real
  rollType :: real
  rollLevel :: real

definition spawnSystem :: "Rolls \<Rightarrow> GameWorld \<Rightarrow> (error + unit) \<times> GameWorld" where
  "spawnSystem r world =
     (let w = world\<lparr>spawnTimer := spawnTimer world - delta world\<rparr> in
      if spawnTimer w \<le> 0 then
        (let w = w\<lparr>spawnTimer := baseSpawnInterval (config w) * (0.8 + rollInterval r * 0.4)\<rparr>;
             arenaW = arenaWidth (config w);
             arenaH = arenaHeight (config w);
             (x, y) =
               (if rollEdge r < 0.5
                then (rollA r * arenaW, if rollB r < 0.5 then 20 else arenaH - 20)
                else (if rollA r < 0.5 then 20 else arenaW - 20, rollB r * arenaH));
             ty = of_int \<lfloor>rollType r * 4\<rfloor>;
             levelRoll = rollLevel r;
             level = (if levelRoll > 0.95 then 3 else if levelRoll > 0.8 then 2 else 1)
         in case createEnemyMonster w x y ty level of
              (Inl err, w') \<Rightarrow> (Inl err, w')
            | (Inr entity, w') \<Rightarrow> (Inr (), w'))
      else (Inr (), w))"

section \<open>The game object (game.ts)\<close>

definition DEFAULT_CONFIG :: GameConfig where
  "DEFAULT_CONFIG =
     \<lparr>arenaWidth = 800, arenaHeight = 600, baseSpawnInterval = 3, monsterTypes = 4,
      maxLevel = 10, initialPlayerMonsters = 1\<rparr>"

text \<open>The world as the constructor sets it up, before the initial player monsters.\<close>

definition newWorld :: "GameConfig \<Rightarrow> GameWorld" where
  "newWorld mergedConfig =
     \<lparr>entities = [], nextEid = 0, comps = (\<lambda>e. {}), store = (\<lambda>f e. 0),
      time = 0, delta = 0, config = mergedConfig, events = [], deadEntities = [],
      entitiesToRemove = [], playerEntities = [],
      spawnTimer = baseSpawnInterval mergedConfig\<rparr>"

text \<open>The type draw of \<^verbatim>\<open>initializePlayerMonsters\<close>, for a roll of \<^verbatim>\<open>Math.random()\<close>.\<close>

definition initialMonsterType :: "GameWorld \<Rightarrow> real \<Rightarrow> real" where
  "initialMonsterType w roll = of_int \<lfloor>roll * monsterTypes (config w)\<rfloor>"

definition Game_createPlayerMonster ::
  "GameWorld \<Rightarrow> real \<Rightarrow> real \<Rightarrow> real \<Rightarrow> (error + nat) \<times> GameWorld" where
  "Game_createPlayerMonster world x y ty = createPlayerMonster world x y ty 1"

definition movePlayerMonster :: "nat \<Rightarrow> real \<Rightarrow> real \<Rightarrow> GameWorld \<Rightarrow> GameWorld" where
  "movePlayerMonster entity vx vy w =
     (if entity \<in> set (playerEntities w)
      then wr Velocity_y entity vy (wr Velocity_x entity vx w)
      else w)"

section \<open>Combat (systems/combat.ts)\<close>

subsection \<open>attackSystem\<close>

text \<open>The body of the first loop, for one attacker.\<close>

definition decayTimer :: "real \<Rightarrow> nat \<Rightarrow> GameWorld \<Rightarrow> GameWorld" where
  "decayTimer dt attacker w =
     (if rd w Attack_timer attacker > 0
      then wr Attack_timer attacker (rd w Attack_timer attacker - dt) w
      else w)"

definition decayCooldowns :: "GameWorld \<Rightarrow> GameWorld" where
  "decayCooldowns w = fold (decayTimer (delta w)) (attackerQuery w) w"

text \<open>The body of \<^verbatim>\<open>if (distance <= attackRange)\<close>, up to the \<^verbatim>\<open>break\<close>.\<close>

definition strike :: "nat \<Rightarrow> nat \<Rightarrow> real \<Rightarrow> real \<Rightarrow> real \<Rightarrow> real \<Rightarrow> GameWorld \<Rightarrow> GameWorld" where
  "strike attacker target targetX targetY dx dy w0 =
     (let damage = rd w0 Attack_damage attacker;
          w = wr Health_current target (rd w0 Health_current target - damage) w0;
          w = (if \<not> hasComponent w Knockback target then addComponent Knockback target w else w);
          w = wr Knockback_force target (damage * 10) w;
          w = wr Knockback_direction target (atan2 dy dx) w;
          w = wr Knockback_remaining target 0.2 w;
          w = wr Attack_timer attacker (rd w Attack_cooldown attacker) w;
          w = w\<lparr>events := events w @ [MONSTER_DAMAGED target attacker damage (targetX, targetY)]\<rparr>
      in w)"

text \<open>The inner loop over \<open>targets\<close>: it ends at the first strike.\<close>

fun scanTargets :: "nat \<Rightarrow> real \<Rightarrow> real \<Rightarrow> real \<Rightarrow> nat list \<Rightarrow> GameWorld \<Rightarrow> GameWorld" where
  "scanTargets attacker attackerX attackerY attackRange [] w = w"
| "scanTargets attacker attackerX attackerY attackRange (target # rest) w =
     (if target = attacker then scanTargets attacker attackerX attackerY attackRange rest w
      else
        (let targetX = rd w Position_x target;
             targetY = rd w Position_y target;
             dx = targetX - attackerX;
             dy = targetY - attackerY;
             distance = sqrt (dx * dx + dy * dy)
         in if distance \<le> attackRange
            then strike attacker target targetX targetY dx dy w
            else scanTargets attacker attackerX attackerY attackRange rest w))"

text \<open>The body of the second loop, for one attacker.\<close>

definition processAttacker :: "nat list \<Rightarrow> nat \<Rightarrow> GameWorld \<Rightarrow> GameWorld" where
  "processAttacker targets attacker w =
     (if rd w Attack_timer attacker > 0 then w
      else scanTargets attacker (rd w Position_x attacker) (rd w Position_y attacker)
             (rd w Attack_range attacker) targets w)"

definition resolveAttacks :: "nat list \<Rightarrow> nat list \<Rightarrow> GameWorld \<Rightarrow> GameWorld" where
  "resolveAttacks attackers targets w = fold (processAttacker targets) attackers w"

definition attackSystem :: "GameWorld \<Rightarrow> GameWorld" where
  "attackSystem world =
     (let attackers = attackerQuery world;
          targets = damageableQuery world;
          dt = delta world;
          w = fold (decayTimer dt) attackers world
      in resolveAttacks attackers targets w)"

subsection \<open>knockbackSystem\<close>

definition knockbackStep :: "real \<Rightarrow> nat \<Rightarrow> GameWorld \<Rightarrow> GameWorld" where
  "knockbackStep dt entity w0 =
     (let w = wr Knockback_remaining entity (rd w0 Knockback_remaining entity - dt) w0 in
      if rd w Knockback_remaining entity > 0 then
        (let force = rd w Knockback_force entity;
             direction = rd w Knockback_direction entity;
             knockbackVelocityX = cos direction * force;
             knockbackVelocityY = sin direction * force;
             w = wr Position_x entity (rd w Position_x entity + knockbackVelocityX * dt) w;
             w = wr Position_y entity (rd w Position_y entity + knockbackVelocityY * dt) w;
             w = wr Knockback_force entity (rd w Knockback_force entity * 0.9) w
         in w)
      else w)"

definition knockbackSystem :: "GameWorld \<Rightarrow> GameWorld" where
  "knockbackSystem world = fold (knockbackStep (delta world)) (knockbackQuery world) world"

subsection \<open>healthSystem\<close>

definition markDead :: "nat \<Rightarrow> GameWorld \<Rightarrow> GameWorld" where
  "markDead entity w =
     (if rd w Health_current entity \<le> 0
      then w\<lparr>deadEntities := deadEntities w @ [entity]\<rparr>
      else w)"

text \<open>The \<^verbatim>\<open>while\<close> loop: \<^verbatim>\<open>pop()\<close> takes the last element of the queue.\<close>

function drainDead :: "GameWorld \<Rightarrow> GameWorld" where
  "drainDead w =
     (if length (deadEntities w) > 0
      then drainDead
             (removeEntity (last (deadEntities w)) (w\<lparr>deadEntities := butlast (deadEntities w)\<rparr>))
      else w)"
  by pat_completeness auto
termination
  by (relation "measure (\<lambda>w. length (deadEntities w))") (auto simp: removeEntity_def)

definition healthSystem :: "GameWorld \<Rightarrow> GameWorld" where
  "healthSystem world = drainDead (fold markDead (healthQuery world) world)"

section \<open>Notions the properties are stated with\<close>

text \<open>
  The level curves as the specification words them: each base stat times its own linear
  factor in \<open>level - 1\<close>, floored, in exact arithmetic.
\<close>

definition scaledStats :: "MonsterStats \<Rightarrow> real \<Rightarrow> MonsterStats" where
  "scaledStats base level =
     \<lparr>health = of_int \<lfloor>health base * (1 + (level - 1) * 0.5)\<rfloor>,
      attack = of_int \<lfloor>attack base * (1 + (level - 1) * 0.3)\<rfloor>,
      defense = of_int \<lfloor>defense base * (1 + (level - 1) * 0.3)\<rfloor>,
      speed = of_int \<lfloor>speed base * (1 + (level - 1) * 0.1)\<rfloor>,
      radius = of_int \<lfloor>radius base * (1 + (level - 1) * 0.2)\<rfloor>\<rparr>"

definition statsLe :: "MonsterStats \<Rightarrow> MonsterStats \<Rightarrow> bool" where
  "statsLe a b =
     (health a \<le> health b \<and> attack a \<le> attack b \<and> defense a \<le> defense b \<and>
      speed a \<le> speed b \<and> radius a \<le> radius b)"

text \<open>Rounding a positive number to the nearest double.\<close>

definition flpos :: "real \<Rightarrow> real" where
  "flpos x = of_int (rne (x / ulp x)) * ulp x"

text \<open>
  The components and tags both creation functions attach before the faction tag.
\<close>

definition monsterComponents :: "component set" where
  "monsterComponents =
     {Position, Velocity, Health, Attack, Defense, Monster, Mergeable, Collider, Sprite}"

text \<open>
  \<open>inRange w a t\<close>: \<open>t\<close> is not the attacker itself and its Euclidean distance to the
  attacker is at most the attacker's range. \<open>firstTarget\<close> is the first such entity in the
  iteration order of the damageable query.
\<close>

definition inRange :: "GameWorld \<Rightarrow> nat \<Rightarrow> nat \<Rightarrow> bool" where
  "inRange w attacker target =
     (target \<noteq> attacker \<and>
      sqrt ((rd w Position_x target - rd w Position_x attacker) *
              (rd w Position_x target - rd w Position_x attacker) +
            (rd w Position_y target - rd w Position_y attacker) *
              (rd w Position_y target - rd w Position_y attacker))
        \<le> rd w Attack_range attacker)"

definition firstTarget :: "GameWorld \<Rightarrow> nat \<Rightarrow> nat option" where
  "firstTarget w attacker = find (inRange w attacker) (damageableQuery w)"

text \<open>
  \<open>damagedBy a\<close> holds of the \<^verbatim>\<open>MONSTER_DAMAGED\<close> events whose attacker is \<open>a\<close>.
  \<open>strikeEvents ts w a\<close> is the list of events one attacker contributes to a resolution pass
  over the targets \<open>ts\<close>: empty, or a single event.
\<close>

definition damagedBy :: "nat \<Rightarrow> GameEvent \<Rightarrow> bool" where
  "damagedBy a ev = (case ev of MONSTER_DAMAGED t a' d p \<Rightarrow> a' = a | _ \<Rightarrow> False)"

definition strikeEvents :: "nat list \<Rightarrow> GameWorld \<Rightarrow> nat \<Rightarrow> GameEvent list" where
  "strikeEvents ts w a =
     (if rd w Attack_timer a > 0 then []
      else case find (inRange w a) ts of
             None \<Rightarrow> []
           | Some t \<Rightarrow> [MONSTER_DAMAGED t a (rd w Attack_damage a) (rd w Position_x t, rd w Position_y t)])"

text \<open>
  The attackers that strike \<open>t\<close> in one run of the attack system, in the order the
  resolution pass reaches them: those whose timer is at most zero after the decay pass and
  whose first target in range is \<open>t\<close>. \<open>knockOf v a t\<close> gives the three Knockback fields
  a strike of \<open>a\<close> on \<open>t\<close> writes.
\<close>

definition strikers :: "GameWorld \<Rightarrow> nat \<Rightarrow> nat list" where
  "strikers w t =
     filter (\<lambda>a. rd (decayCooldowns w) Attack_timer a \<le> 0 \<and> firstTarget w a = Some t)
       (attackerQuery w)"

definition knockOf :: "GameWorld \<Rightarrow> nat \<Rightarrow> nat \<Rightarrow> field \<Rightarrow> real" where
  "knockOf v a t f =
     (if f = Knockback_force then rd v Attack_damage a * 10
      else if f = Knockback_direction
        then atan2 (rd v Position_y t - rd v Position_y a) (rd v Position_x t - rd v Position_x a)
      else 0.2)"

text \<open>
  Two worlds agree on the data a resolution pass reads but never writes.
\<close>

definition sameArena :: "GameWorld \<Rightarrow> GameWorld \<Rightarrow> bool" where
  "sameArena w w' =
     (\<forall>e. rd w' Position_x e = rd w Position_x e \<and> rd w' Position_y e = rd w Position_y e \<and>
          rd w' Attack_range e = rd w Attack_range e \<and> rd w' Attack_damage e = rd w Attack_damage e)"

text \<open>
  An entity the health system has to remove: it carries Health and its current health is
  at most zero.
\<close>

definition depleted :: "GameWorld \<Rightarrow> nat \<Rightarrow> bool" where
  "depleted w e = (hasComponent w Health e \<and> rd w Health_current e \<le> 0)"

text \<open>
  \<open>retag g w\<close> replaces the faction tags of every entity by those \<open>g\<close> gives it and
  leaves every other component in place.
\<close>

definition retag :: "(nat \<Rightarrow> component set) \<Rightarrow> GameWorld \<Rightarrow> GameWorld" where
  "retag g w =
     w\<lparr>comps := (\<lambda>e. (comps w e - {PlayerControlled, Enemy}) \<union>
                       (g e \<inter> {PlayerControlled, Enemy}))\<rparr>"

section \<open>Example worlds\<close>

text \<open>
  The strike scenario of the specification: entity 0 is an attacker at the origin with range
  10, damage 15, cooldown 1 and a timer of 0; entity 1 is a target at \<open>(5, 0)\<close> with 50
  health. The frame lasts 0.1 seconds.
\<close>

definition scenarioStore :: "field \<Rightarrow> nat \<Rightarrow> real" where
  "scenarioStore f e =
     (if e = 0 then
        (case f of Attack_range \<Rightarrow> 10 | Attack_damage \<Rightarrow> 15 | Attack_cooldown \<Rightarrow> 1
         | Health_current \<Rightarrow> 100 | Health_max \<Rightarrow> 100 | _ \<Rightarrow> 0)
      else if e = 1 then
        (case f of Position_x \<Rightarrow> 5 | Health_current \<Rightarrow> 50 | Health_max \<Rightarrow> 50 | _ \<Rightarrow> 0)
      else 0)"

definition scenarioWorld :: GameWorld where
  "scenarioWorld =
     (newWorld DEFAULT_CONFIG)
       \<lparr>entities := [0, 1], nextEid := 2,
        comps := (\<lambda>e. if e = 0 then {Position, Health, Attack}
                       else if e = 1 then {Position, Health} else {}),
        store := scenarioStore, delta := 0.1\<rparr>"

text \<open>
  The scenario with a second attacker: entity 2 stands at \<open>(12, 0)\<close> with range 10 and
  damage 10, out of range of entity 0 and 7 away from the target.
\<close>

definition crossfireStore :: "field \<Rightarrow> nat \<Rightarrow> real" where
  "crossfireStore f e =
     (if e = 0 then
        (case f of Attack_range \<Rightarrow> 10 | Attack_damage \<Rightarrow> 15 | Attack_cooldown \<Rightarrow> 1
         | Health_current \<Rightarrow> 100 | Health_max \<Rightarrow> 100 | _ \<Rightarrow> 0)
      else if e = 1 then
        (case f of Position_x \<Rightarrow> 5 | Health_current \<Rightarrow> 50 | Health_max \<Rightarrow> 50 | _ \<Rightarrow> 0)
      else if e = 2 then
        (case f of Position_x \<Rightarrow> 12 | Attack_range \<Rightarrow> 10 | Attack_damage \<Rightarrow> 10
         | Attack_cooldown \<Rightarrow> 1 | Health_current \<Rightarrow> 80 | Health_max \<Rightarrow> 80 | _ \<Rightarrow> 0)
      else 0)"

definition crossfireWorld :: GameWorld where
  "crossfireWorld =
     (newWorld DEFAULT_CONFIG)
       \<lparr>entities := [0, 1, 2], nextEid := 3,
        comps := (\<lambda>e. if e = 0 \<or> e = 2 then {Position, Health, Attack}
                       else if e = 1 then {Position, Health} else {}),
        store := crossfireStore, delta := 0.1\<rparr>"

text \<open>
  The same world with the attacker half-way through its cooldown, and with the target's
  health already below zero.
\<close>

definition coolingWorld :: GameWorld where
  "coolingWorld = wr Attack_timer 0 0.05 scenarioWorld"

definition woundedWorld :: GameWorld where
  "woundedWorld = wr Health_current 1 (- 10) scenarioWorld"

text \<open>
  Four entities carrying Knockback: entity 0 on the last frame of its knockback (0.05
  seconds remain of a 0.1 second frame), entity 1 with a force of zero, entity 2 just struck,
  entity 3 with its knockback run out.
\<close>

definition knockStore :: "field \<Rightarrow> nat \<Rightarrow> real" where
  "knockStore f e =
     (if e = 0 then
        (case f of Knockback_remaining \<Rightarrow> 0.05 | Knockback_force \<Rightarrow> 100 | _ \<Rightarrow> 0)
      else if e = 1 then
        (case f of Knockback_remaining \<Rightarrow> 0.3 | Knockback_force \<Rightarrow> 0 | _ \<Rightarrow> 0)
      else if e = 2 then
        (case f of Position_x \<Rightarrow> 5 | Knockback_remaining \<Rightarrow> 0.2 | Knockback_force \<Rightarrow> 150
         | _ \<Rightarrow> 0)
      else if e = 3 then
        (case f of Knockback_remaining \<Rightarrow> - 0.1 | Knockback_force \<Rightarrow> 50 | _ \<Rightarrow> 0)
      else 0)"

definition knockWorld :: GameWorld where
  "knockWorld =
     (newWorld DEFAULT_CONFIG)
       \<lparr>entities := [0, 1, 2, 3], nextEid := 4,
        comps := (\<lambda>e. if e < 4 then {Position, Health, Knockback} else {}),
        store := knockStore, delta := 0.1\<rparr>"

text \<open>
  A new game with one player monster, and the same world once the monster's health has
  dropped to \<open>-5\<close>.
\<close>

definition playerWorld :: GameWorld where
  "playerWorld = snd (createPlayerMonster (newWorld DEFAULT_CONFIG) 400 300 FIRE 1)"

definition slainWorld :: GameWorld where
  "slainWorld = wr Health_current 0 (- 5) playerWorld"

text \<open>
  A game configured with two monster types whose spawn timer fires this frame, and the
  values \<^verbatim>\<open>Math.random()\<close> returns: the type roll is 0.9.
\<close>

definition twoTypeWorld :: GameWorld where
  "twoTypeWorld =
     (newWorld (DEFAULT_CONFIG\<lparr>monsterTypes := 2\<rparr>))\<lparr>delta := 0.1, spawnTimer := 0.05\<rparr>"

definition typeRolls :: Rolls where
  "typeRolls =
     \<lparr>rollInterval = 0.5, rollEdge = 0.2, rollA = 0.5, rollB = 0.7, rollType = 0.9,
      rollLevel = 0.5\<rparr>"

text \<open>
  Creating a player monster of level \<open>-3\<close> in a new game.
\<close>

definition recruit :: "(error + nat) \<times> GameWorld" where
  "recruit = createPlayerMonster (newWorld DEFAULT_CONFIG) 400 300 FIRE (- 3)"

text \<open>
  Two player monsters 20 units apart, and two enemy monsters 20 units apart.
\<close>

definition friendlyWorld :: GameWorld where
  "friendlyWorld =
     snd (createPlayerMonster
            (snd (createPlayerMonster (newWorld DEFAULT_CONFIG) 100 100 FIRE 1)) 120 100 WATER 1)"

definition hostileWorld :: GameWorld where
  "hostileWorld =
     snd (createEnemyMonster
            (snd (createEnemyMonster (newWorld DEFAULT_CONFIG) 100 100 FIRE 1)) 120 100 WATER 1)"

section \<open>Reading and writing the store\<close>

lemma rd_wr [simp]: "rd (wr f e v w) f' e' = (if f' = f \<and> e' = e then v else rd w f' e')"
  by (simp add: rd_def wr_def)

lemma wr_frame [simp]:
  "entities (wr f e v w) = entities w" "nextEid (wr f e v w) = nextEid w"
  "comps (wr f e v w) = comps w" "delta (wr f e v w) = delta w"
  "config (wr f e v w) = config w" "events (wr f e v w) = events w"
  "deadEntities (wr f e v w) = deadEntities w" "playerEntities (wr f e v w) = playerEntities w"
  "spawnTimer (wr f e v w) = spawnTimer w"
  by (simp_all add: wr_def)

lemma addComponent_frame [simp]:
  "entities (addComponent c e w) = entities w" "nextEid (addComponent c e w) = nextEid w"
  "store (addComponent c e w) = store w" "delta (addComponent c e w) = delta w"
  "config (addComponent c e w) = config w" "events (addComponent c e w) = events w"
  "deadEntities (addComponent c e w) = deadEntities w"
  "playerEntities (addComponent c e w) = playerEntities w"
  "spawnTimer (addComponent c e w) = spawnTimer w"
  "comps (addComponent c e w) = (comps w)(e := insert c (comps w e))"
  by (simp_all add: addComponent_def)

lemma rd_addComponent [simp]: "rd (addComponent c e w) f e' = rd w f e'"
  by (simp add: rd_def)

lemma rd_events_upd [simp]: "rd (w\<lparr>events := ev\<rparr>) f e = rd w f e"
  by (simp add: rd_def)

lemma rd_other_upd [simp]:
  "rd (w\<lparr>playerEntities := p\<rparr>) f e = rd w f e"
  "rd (w\<lparr>entities := es\<rparr>) f e = rd w f e"
  "rd (w\<lparr>nextEid := n\<rparr>) f e = rd w f e"
  "rd (w\<lparr>spawnTimer := t\<rparr>) f e = rd w f e"
  "rd (w\<lparr>deadEntities := ds\<rparr>) f e = rd w f e"
  by (simp_all add: rd_def)

lemma rd_addEntity [simp]: "rd (snd (addEntity w)) f e = rd w f e"
  by (simp add: rd_def addEntity_def)

lemma hasComponent_wr [simp]: "hasComponent (wr f e v w) c e' = hasComponent w c e'"
  by (simp add: hasComponent_def)

lemma distinct_defineQuery: "distinct (entities w) \<Longrightarrow> distinct (defineQuery cs w)"
  by (simp add: defineQuery_def)

lemma set_defineQuery:
  "set (defineQuery cs w) = {e \<in> set (entities w). \<forall>c \<in> set cs. hasComponent w c e}"
  by (auto simp: defineQuery_def list_all_iff)

lemma newWorld_facts:
  "entities (newWorld c) = []" "nextEid (newWorld c) = 0" "comps (newWorld c) = (\<lambda>e. {})"
  "playerEntities (newWorld c) = []" "events (newWorld c) = []" "delta (newWorld c) = 0"
  "deadEntities (newWorld c) = []" "rd (newWorld c) f e = 0"
  by (simp_all add: newWorld_def rd_def)

lemma sqrt_le_iff_sq: "0 \<le> r \<Longrightarrow> sqrt x \<le> r \<longleftrightarrow> x \<le> r * r"
  by (metis abs_of_nonneg real_sqrt_abs2 real_sqrt_le_iff)

lemma scenario_queries:
  "attackerQuery scenarioWorld = [0]" "damageableQuery scenarioWorld = [0, 1]"
  "healthQuery scenarioWorld = [0, 1]" "entities scenarioWorld = [0, 1]"
  "events scenarioWorld = []" "delta scenarioWorld = 0.1" "deadEntities scenarioWorld = []"
  by (simp_all add: attackerQuery_def damageableQuery_def healthQuery_def defineQuery_def
        hasComponent_def scenarioWorld_def newWorld_def)

lemma scenario_rd: "rd scenarioWorld f e = scenarioStore f e"
  by (simp add: rd_def scenarioWorld_def)

lemma scenario_comps:
  "comps scenarioWorld =
     (\<lambda>e. if e = 0 then {Position, Health, Attack} else if e = 1 then {Position, Health} else {})"
  by (simp add: scenarioWorld_def)

section \<open>Rounding to double precision\<close>

lemma rne_of_int [simp]: "rne (of_int n) = n"
  by (simp add: rne_def)

lemma rne_bounds: "\<lfloor>x\<rfloor> \<le> rne x" "rne x \<le> \<lfloor>x\<rfloor> + 1"
  by (simp_all add: rne_def Let_def)

lemma rne_mono: "a \<le> b \<Longrightarrow> rne a \<le> rne b"
proof -
  assume ab: "a \<le> b"
  then have fm: "\<lfloor>a\<rfloor> \<le> \<lfloor>b\<rfloor>" by (rule floor_mono)
  show ?thesis
  proof (cases "\<lfloor>a\<rfloor> = \<lfloor>b\<rfloor>")
    case True
    with ab have "a - of_int \<lfloor>a\<rfloor> \<le> b - of_int \<lfloor>b\<rfloor>" by simp
    with True show ?thesis by (auto simp: rne_def Let_def)
  next
    case False
    with fm have "\<lfloor>a\<rfloor> + 1 \<le> \<lfloor>b\<rfloor>" by simp
    with rne_bounds(2)[of a] rne_bounds(1)[of b] show ?thesis by linarith
  qed
qed

lemma rne_ge: "of_int m \<le> x \<Longrightarrow> m \<le> rne x"
  using rne_mono[of "of_int m" x] by simp

lemma rne_le: "x \<le> of_int m \<Longrightarrow> rne x \<le> m"
  using rne_mono[of x "of_int m"] by simp

lemma ulp_pos [simp]: "0 < ulp x"
  by (simp add: ulp_def)

lemma ulp_nonneg [simp]: "0 \<le> ulp x"
  by (simp add: ulp_def)

lemma ulp_minus [simp]: "ulp (- x) = ulp x"
  by (simp add: ulp_def)

lemma fl_minus: "fl (- x) = - fl x"
  by (simp add: fl_def sgn_minus)

lemma fl_zero [simp]: "fl 0 = 0"
  by (simp add: fl_def)

text \<open>The binade of a positive number.\<close>

lemma binade:
  assumes "0 < x"
  shows "2 powr of_int \<lfloor>log 2 x\<rfloor> \<le> x" "x < 2 powr (of_int \<lfloor>log 2 x\<rfloor> + 1)"
proof -
  have "of_int \<lfloor>log 2 x\<rfloor> \<le> log 2 x" by simp
  with le_log_iff[of 2 x "of_int \<lfloor>log 2 x\<rfloor>"] assms
  show "2 powr of_int \<lfloor>log 2 x\<rfloor> \<le> x" by simp
  have "log 2 x < of_int \<lfloor>log 2 x\<rfloor> + 1" by linarith
  with log_less_iff[of 2 x "of_int \<lfloor>log 2 x\<rfloor> + 1"] assms
  show "x < 2 powr (of_int \<lfloor>log 2 x\<rfloor> + 1)" by simp
qed

lemma floor_log_eq:
  assumes "0 < x" "2 powr of_int k \<le> x" "x < 2 powr (of_int k + 1)"
  shows "\<lfloor>log 2 x\<rfloor> = k"
proof -
  from assms le_log_iff[of 2 x "of_int k"] have "of_int k \<le> log 2 x" by simp
  moreover from assms log_less_iff[of 2 x "of_int k + 1"] have "log 2 x < of_int k + 1" by simp
  ultimately show ?thesis by linarith
qed

lemma fl_pos: "0 < x \<Longrightarrow> fl x = flpos x"
  by (simp add: fl_def flpos_def)

lemma flpos_bounds:
  assumes "0 < x"
  shows "2 powr of_int \<lfloor>log 2 x\<rfloor> \<le> flpos x" "flpos x \<le> 2 powr (of_int \<lfloor>log 2 x\<rfloor> + 1)"
proof -
  let ?e = "of_int \<lfloor>log 2 x\<rfloor> :: real"
  have u: "ulp x = 2 powr (?e - 52)" using assms by (simp add: ulp_def)
  have "?e = 52 + (?e - 52)" "?e + 1 = 53 + (?e - 52)" by linarith+
  then have "2 powr ?e = 2 powr (52 + (?e - 52))" "2 powr (?e + 1) = 2 powr (53 + (?e - 52))"
    by presburger+
  then have p: "2 powr ?e = 2 powr 52 * ulp x" "2 powr (?e + 1) = 2 powr 53 * ulp x"
    unfolding u by (simp_all only: powr_add)
  have n: "(2::real) powr 52 = of_int (2 ^ 52)" "(2::real) powr 53 = of_int (2 ^ 53)"
    by simp_all
  from binade(1)[OF assms] have "2 powr 52 \<le> x / ulp x"
    by (simp add: p(1) pos_le_divide_eq)
  then have "(2 ^ 52 :: int) \<le> rne (x / ulp x)" unfolding n by (rule rne_ge)
  then have "(of_int (2 ^ 52) :: real) \<le> of_int (rne (x / ulp x))" by (simp only: of_int_le_iff)
  then show "2 powr ?e \<le> flpos x"
    unfolding p flpos_def n by (simp add: mult_right_mono)
  from binade(2)[OF assms] have "x / ulp x \<le> 2 powr 53"
    by (simp add: p(2) pos_divide_le_eq)
  then have "rne (x / ulp x) \<le> (2 ^ 53 :: int)" unfolding n by (rule rne_le)
  then have "(of_int (rne (x / ulp x)) :: real) \<le> of_int (2 ^ 53)" by (simp only: of_int_le_iff)
  then show "flpos x \<le> 2 powr (?e + 1)"
    unfolding p flpos_def n by (simp add: mult_right_mono)
qed

lemma flpos_mono:
  assumes "0 < x" "x \<le> y"
  shows "flpos x \<le> flpos y"
proof -
  from assms have y: "0 < y" by simp
  from assms have le: "\<lfloor>log 2 x\<rfloor> \<le> \<lfloor>log 2 y\<rfloor>"
    by (intro floor_mono) simp
  show ?thesis
  proof (cases "\<lfloor>log 2 x\<rfloor> = \<lfloor>log 2 y\<rfloor>")
    case True
    with assms y have u: "ulp x = ulp y" by (simp add: ulp_def)
    have "x / ulp y \<le> y / ulp y" by (rule divide_right_mono[OF assms(2)]) simp
    then have "rne (x / ulp y) \<le> rne (y / ulp y)" by (rule rne_mono)
    then show ?thesis by (simp add: flpos_def u mult_right_mono)
  next
    case False
    with le have "of_int \<lfloor>log 2 x\<rfloor> + 1 \<le> (of_int \<lfloor>log 2 y\<rfloor> :: real)"
      by linarith
    then have "(2::real) powr (of_int \<lfloor>log 2 x\<rfloor> + 1) \<le> 2 powr of_int \<lfloor>log 2 y\<rfloor>"
      by simp
    with flpos_bounds(2)[OF assms(1)] flpos_bounds(1)[OF y] show ?thesis by linarith
  qed
qed

lemma flpos_nonneg:
  assumes "0 \<le> x"
  shows "0 \<le> flpos x"
proof -
  from assms have "of_int 0 \<le> x / ulp x" by simp
  then have "0 \<le> rne (x / ulp x)" by (rule rne_ge)
  then show ?thesis by (simp add: flpos_def)
qed

lemma fl_abs: "fl x = sgn x * flpos \<bar>x\<bar>"
  by (cases "x < 0") (simp_all add: fl_def flpos_def ulp_def)

lemma fl_mono: "x \<le> y \<Longrightarrow> fl x \<le> fl y"
proof -
  assume xy: "x \<le> y"
  consider "0 < x" | "y < 0" | "x \<le> 0" "0 \<le> y" by linarith
  then show ?thesis
  proof cases
    case 1
    with xy show ?thesis by (simp add: fl_abs flpos_mono)
  next
    case 2
    with xy have "flpos \<bar>y\<bar> \<le> flpos \<bar>x\<bar>" by (intro flpos_mono) simp_all
    with 2 xy show ?thesis by (simp add: fl_abs)
  next
    case 3
    have "fl x \<le> 0" using 3(1) flpos_nonneg[of "\<bar>x\<bar>"]
      by (cases "x = 0") (simp_all add: fl_abs)
    moreover have "0 \<le> fl y" using 3(2) flpos_nonneg[of "\<bar>y\<bar>"]
      by (cases "y = 0") (simp_all add: fl_abs)
    ultimately show ?thesis by linarith
  qed
qed

lemma fl_eval:
  assumes "0 < x" "2 powr of_int k \<le> x" "x < 2 powr (of_int k + 1)"
  shows "fl x = of_int (rne (x / 2 powr (of_int k - 52))) * 2 powr (of_int k - 52)"
  using assms by (simp add: fl_def ulp_def floor_log_eq[OF assms])

text \<open>Rounding a number whose binade is known.\<close>

lemma fl_up:
  assumes "2 ^ n \<le> x" "x < 2 * 2 ^ n" "n \<le> 52"
  shows "fl x = of_int (rne (x * 2 ^ (52 - n))) / 2 ^ (52 - n)"
proof -
  have "(0::real) < 2 ^ n" by simp
  with assms(1) have pos: "0 < x" by linarith
  have a: "(2::real) powr of_int (int n) = 2 ^ n" by (simp add: powr_realpow)
  have "(2::real) powr (real n + 1) = 2 powr real n * 2 powr 1" by (rule powr_add)
  then have b: "(2::real) powr (of_int (int n) + 1) = 2 * 2 ^ n"
    by (simp add: powr_realpow)
  have "real_of_int (int n) - 52 = - real (52 - n)" using assms(3) by simp
  then have "(2::real) powr (of_int (int n) - 52) = 2 powr (- real (52 - n))" by (simp only:)
  also have "\<dots> = inverse (2 ^ (52 - n))" by (simp only: powr_minus powr_realpow)
  finally have c: "(2::real) powr (of_int (int n) - 52) = inverse (2 ^ (52 - n))" .
  have "fl x = of_int (rne (x / inverse (2 ^ (52 - n)))) * inverse (2 ^ (52 - n))"
    using fl_eval[of x "int n", unfolded a b c, OF pos assms(1) assms(2)] .
  then show ?thesis by (simp add: divide_inverse)
qed

lemma fl_down:
  assumes "1 / 2 ^ n \<le> x" "x < 2 / 2 ^ n"
  shows "fl x = of_int (rne (x * 2 ^ (52 + n))) / 2 ^ (52 + n)"
proof -
  have "(0::real) < 1 / 2 ^ n" by simp
  with assms(1) have pos: "0 < x" by linarith
  have "(2::real) powr (- real n) = inverse (2 powr real n)" by (rule powr_minus)
  then have a: "(2::real) powr of_int (- int n) = 1 / 2 ^ n"
    by (simp add: powr_realpow divide_inverse)
  have "(2::real) powr (- real n + 1) = 2 powr (- real n) * 2 powr 1" by (rule powr_add)
  then have b: "(2::real) powr (of_int (- int n) + 1) = 2 / 2 ^ n"
    by (simp add: powr_minus powr_realpow divide_inverse)
  have "real_of_int (- int n) - 52 = - real (52 + n)" by simp
  then have "(2::real) powr (of_int (- int n) - 52) = 2 powr (- real (52 + n))" by (simp only:)
  also have "\<dots> = inverse (2 ^ (52 + n))" by (simp only: powr_minus powr_realpow)
  finally have c: "(2::real) powr (of_int (- int n) - 52) = inverse (2 ^ (52 + n))" .
  have "fl x = of_int (rne (x / inverse (2 ^ (52 + n)))) * inverse (2 ^ (52 + n))"
    using fl_eval[of x "- int n", unfolded a b c, OF pos assms(1) assms(2)] .
  then show ?thesis by (simp add: divide_inverse)
qed

lemma fl_numeral:
  fixes x :: real
  shows
  "1 / 16 \<le> x \<Longrightarrow> x < 2 / 16 \<Longrightarrow> fl x = of_int (rne (x * 72057594037927936)) / 72057594037927936"
  "1 / 8 \<le> x \<Longrightarrow> x < 2 / 8 \<Longrightarrow> fl x = of_int (rne (x * 36028797018963968)) / 36028797018963968"
  "1 / 4 \<le> x \<Longrightarrow> x < 2 / 4 \<Longrightarrow> fl x = of_int (rne (x * 18014398509481984)) / 18014398509481984"
  "1 / 2 \<le> x \<Longrightarrow> x < 2 / 2 \<Longrightarrow> fl x = of_int (rne (x * 9007199254740992)) / 9007199254740992"
  "1 \<le> x \<Longrightarrow> x < 2 \<Longrightarrow> fl x = of_int (rne (x * 4503599627370496)) / 4503599627370496"
  "2 \<le> x \<Longrightarrow> x < 4 \<Longrightarrow> fl x = of_int (rne (x * 2251799813685248)) / 2251799813685248"
  "4 \<le> x \<Longrightarrow> x < 8 \<Longrightarrow> fl x = of_int (rne (x * 1125899906842624)) / 1125899906842624"
  "8 \<le> x \<Longrightarrow> x < 16 \<Longrightarrow> fl x = of_int (rne (x * 562949953421312)) / 562949953421312"
  "16 \<le> x \<Longrightarrow> x < 32 \<Longrightarrow> fl x = of_int (rne (x * 281474976710656)) / 281474976710656"
  "32 \<le> x \<Longrightarrow> x < 64 \<Longrightarrow> fl x = of_int (rne (x * 140737488355328)) / 140737488355328"
  "64 \<le> x \<Longrightarrow> x < 128 \<Longrightarrow> fl x = of_int (rne (x * 70368744177664)) / 70368744177664"
  "128 \<le> x \<Longrightarrow> x < 256 \<Longrightarrow> fl x = of_int (rne (x * 35184372088832)) / 35184372088832"
  "256 \<le> x \<Longrightarrow> x < 512 \<Longrightarrow> fl x = of_int (rne (x * 17592186044416)) / 17592186044416"
  "512 \<le> x \<Longrightarrow> x < 1024 \<Longrightarrow> fl x = of_int (rne (x * 8796093022208)) / 8796093022208"
  "1024 \<le> x \<Longrightarrow> x < 2048 \<Longrightarrow> fl x = of_int (rne (x * 4398046511104)) / 4398046511104"
  "2048 \<le> x \<Longrightarrow> x < 4096 \<Longrightarrow> fl x = of_int (rne (x * 2199023255552)) / 2199023255552"
  using fl_down[of 4 x] apply simp
  using fl_down[of 3 x] apply simp
  using fl_down[of 2 x] apply simp
  using fl_down[of 1 x] apply simp
  using fl_up[of 0 x] apply simp
  using fl_up[of 1 x] apply simp
  using fl_up[of 2 x] apply simp
  using fl_up[of 3 x] apply simp
  using fl_up[of 4 x] apply simp
  using fl_up[of 5 x] apply simp
  using fl_up[of 6 x] apply simp
  using fl_up[of 7 x] apply simp
  using fl_up[of 8 x] apply simp
  using fl_up[of 9 x] apply simp
  using fl_up[of 10 x] apply simp
  using fl_up[of 11 x] apply simp
  done

lemma fl_const_nonneg: "0 \<le> fl 0.5" "0 \<le> fl 0.3" "0 \<le> fl 0.1" "0 \<le> fl 0.2"
  using fl_mono[of 0 "0.5"] fl_mono[of 0 "0.3"] fl_mono[of 0 "0.1"] fl_mono[of 0 "0.2"]
  by simp_all

section \<open>Stat scaling\<close>

lemma base_stats_cases:
  assumes "ty \<in> {FIRE, WATER, EARTH, AIR}"
  obtains base where "BASE_MONSTER_STATS ty = Some base"
    "0 \<le> health base" "0 \<le> attack base" "0 \<le> defense base" "0 \<le> speed base" "0 \<le> radius base"
  using assms by (auto simp: BASE_MONSTER_STATS_def FIRE_def WATER_def EARTH_def AIR_def)

lemma curve_mono:
  fixes b :: real
  assumes "0 \<le> b" "0 \<le> c" "l \<le> l'"
  shows "(of_int \<lfloor>fl (b * fl (1 + fl (fl (l - 1) * c)))\<rfloor> :: real) \<le>
         of_int \<lfloor>fl (b * fl (1 + fl (fl (l' - 1) * c)))\<rfloor>"
proof -
  from assms(3) have "fl (l - 1) \<le> fl (l' - 1)" by (intro fl_mono) simp
  then have "fl (l - 1) * c \<le> fl (l' - 1) * c" using assms(2) by (rule mult_right_mono)
  then have "fl (fl (l - 1) * c) \<le> fl (fl (l' - 1) * c)" by (rule fl_mono)
  then have "fl (1 + fl (fl (l - 1) * c)) \<le> fl (1 + fl (fl (l' - 1) * c))"
    by (intro fl_mono) simp
  then have "b * fl (1 + fl (fl (l - 1) * c)) \<le> b * fl (1 + fl (fl (l' - 1) * c))"
    using assms(1) by (rule mult_left_mono)
  then have "fl (b * fl (1 + fl (fl (l - 1) * c))) \<le> fl (b * fl (1 + fl (fl (l' - 1) * c)))"
    by (rule fl_mono)
  then show ?thesis by (simp add: floor_mono)
qed

lemma calculateMonsterStats_mono:
  assumes "ty \<in> {FIRE, WATER, EARTH, AIR}" and "level \<le> level'"
  shows "\<exists>s s'. calculateMonsterStats ty level = Inr s \<and>
                calculateMonsterStats ty level' = Inr s' \<and> statsLe s s'"
proof -
  from assms(1) obtain base where b: "BASE_MONSTER_STATS ty = Some base"
    "0 \<le> health base" "0 \<le> attack base" "0 \<le> defense base" "0 \<le> speed base" "0 \<le> radius base"
    by (rule base_stats_cases)
  define st where "st l =
     \<lparr>health = of_int \<lfloor>fl (health base * fl (1 + fl (fl (l - 1) * fl 0.5)))\<rfloor>,
      attack = of_int \<lfloor>fl (attack base * fl (1 + fl (fl (l - 1) * fl 0.3)))\<rfloor>,
      defense = of_int \<lfloor>fl (defense base * fl (1 + fl (fl (l - 1) * fl 0.3)))\<rfloor>,
      speed = of_int \<lfloor>fl (speed base * fl (1 + fl (fl (l - 1) * fl 0.1)))\<rfloor>,
      radius = of_int \<lfloor>fl (radius base * fl (1 + fl (fl (l - 1) * fl 0.2)))\<rfloor>\<rparr>" for l
  have eq: "calculateMonsterStats ty l = Inr (st l)" for l
    by (simp add: calculateMonsterStats_def b(1) st_def)
  have le: "statsLe (st level) (st level')"
    unfolding statsLe_def st_def MonsterStats.select_convs
    by (intro conjI curve_mono b fl_const_nonneg assms(2))
  from eq le show ?thesis by blast
qed

lemmas stat_eval =
  calculateMonsterStats_def BASE_MONSTER_STATS_def FIRE_def WATER_def EARTH_def AIR_def
  scaledStats_def fl_numeral fl_minus rne_def Let_def

lemma levels_exact_FIRE:
  assumes "level \<in> {1, 2, 3, 4, 5, 6, 7, 8, 9, 10, 11, 12, 13}"
  shows "calculateMonsterStats FIRE level =
           Inr (scaledStats \<lparr>health = 100, attack = 15, defense = 5, speed = 120, radius = 25\<rparr> level)"
  using assms by (elim insertE emptyE; simp add: stat_eval)

lemma levels_exact_WATER:
  assumes "level \<in> {1, 2, 3, 4, 5, 6, 7, 8, 9, 10, 11, 12, 13}"
  shows "calculateMonsterStats WATER level =
           Inr (scaledStats \<lparr>health = 120, attack = 10, defense = 10, speed = 100, radius = 25\<rparr> level)"
  using assms by (elim insertE emptyE; simp add: stat_eval)

lemma levels_exact_EARTH:
  assumes "level \<in> {1, 2, 3, 4, 5, 6, 7, 8, 9, 10, 11, 12, 13}"
  shows "calculateMonsterStats EARTH level =
           Inr (scaledStats \<lparr>health = 150, attack = 8, defense = 15, speed = 80, radius = 25\<rparr> level)"
  using assms by (elim insertE emptyE; simp add: stat_eval)

lemma levels_exact_AIR:
  assumes "level \<in> {1, 2, 3, 4, 5, 6, 7, 8, 9, 10, 11, 12, 13}"
  shows "calculateMonsterStats AIR level =
           Inr (scaledStats \<lparr>health = 80, attack = 12, defense = 8, speed = 140, radius = 25\<rparr> level)"
  using assms by (elim insertE emptyE; simp add: stat_eval)

text \<open>
  Claim C8 as worded fails: at level 19 the attack curve of a FIRE monster is exactly
  \<open>15 \<times> 6.4 = 96\<close>, and the doubles the source multiplies give a product just below 96, so
  the function returns 95; defense and radius are one short in the same way. The lowest
  level at which a stat is short is 14, where a WATER monster gets a speed of 229 for the
  exact 230.
\<close>

theorem level_19_rounds_down:
  "calculateMonsterStats FIRE 19 =
     Inr \<lparr>health = 1000, attack = 95, defense = 31, speed = 336, radius = 114\<rparr> \<and>
   scaledStats \<lparr>health = 100, attack = 15, defense = 5, speed = 120, radius = 25\<rparr> 19 =
     \<lparr>health = 1000, attack = 96, defense = 32, speed = 336, radius = 115\<rparr> \<and>
   calculateMonsterStats WATER 14 =
     Inr \<lparr>health = 900, attack = 49, defense = 49, speed = 229, radius = 90\<rparr> \<and>
   scaledStats \<lparr>health = 120, attack = 10, defense = 10, speed = 100, radius = 25\<rparr> 14 =
     \<lparr>health = 900, attack = 49, defense = 49, speed = 230, radius = 90\<rparr>"
  by (simp add: stat_eval)

text \<open>
  Claim C8, amended. For every type among FIRE, WATER, EARTH and AIR,
  \<open>calculateMonsterStats\<close> returns the five level curves of the base stats, evaluated in
  double-precision arithmetic and floored. For the integer levels 1 to 13, which include
  every level up to the configured maximum of 10, that is exactly the base stat times its
  curve, floored; and for all levels, raising the level lowers no stat.
\<close>

theorem calculateMonsterStats_curves:
  assumes "ty \<in> {FIRE, WATER, EARTH, AIR}"
  shows "\<exists>base. BASE_MONSTER_STATS ty = Some base \<and>
           (\<forall>level \<in> {1, 2, 3, 4, 5, 6, 7, 8, 9, 10, 11, 12, 13}.
              calculateMonsterStats ty level = Inr (scaledStats base level)) \<and>
           (\<forall>level level'. level \<le> level' \<longrightarrow>
              (\<exists>s s'. calculateMonsterStats ty level = Inr s \<and>
                      calculateMonsterStats ty level' = Inr s' \<and> statsLe s s'))"
proof -
  from assms consider "ty = FIRE" | "ty = WATER" | "ty = EARTH" | "ty = AIR" by auto
  then have "\<exists>base. BASE_MONSTER_STATS ty = Some base \<and>
           (\<forall>level \<in> {1, 2, 3, 4, 5, 6, 7, 8, 9, 10, 11, 12, 13}.
              calculateMonsterStats ty level = Inr (scaledStats base level))"
  proof cases
    case 1
    then show ?thesis using levels_exact_FIRE
      by (intro exI[of _ "\<lparr>health = 100, attack = 15, defense = 5, speed = 120, radius = 25\<rparr>"])
         (simp add: BASE_MONSTER_STATS_def)
  next
    case 2
    then show ?thesis using levels_exact_WATER
      by (intro exI[of _ "\<lparr>health = 120, attack = 10, defense = 10, speed = 100, radius = 25\<rparr>"])
         (simp add: BASE_MONSTER_STATS_def WATER_def FIRE_def)
  next
    case 3
    then show ?thesis using levels_exact_EARTH
      by (intro exI[of _ "\<lparr>health = 150, attack = 8, defense = 15, speed = 80, radius = 25\<rparr>"])
         (simp add: BASE_MONSTER_STATS_def WATER_def FIRE_def EARTH_def)
  next
    case 4
    then show ?thesis using levels_exact_AIR
      by (intro exI[of _ "\<lparr>health = 80, attack = 12, defense = 8, speed = 140, radius = 25\<rparr>"])
         (simp add: BASE_MONSTER_STATS_def WATER_def FIRE_def EARTH_def AIR_def)
  qed
  with calculateMonsterStats_mono[OF assms] show ?thesis by blast
qed

text \<open>
  A level-2 FIRE monster has 150 health, 19 attack, 6 defense, 132 speed and radius 30, as
  the exact curves give, and a level-3 one is at least as strong in every stat.
\<close>

theorem calculateMonsterStats_curves_witness:
  "FIRE \<in> {FIRE, WATER, EARTH, AIR} \<and>
   calculateMonsterStats FIRE 2 =
     Inr \<lparr>health = 150, attack = 19, defense = 6, speed = 132, radius = 30\<rparr> \<and>
   (\<exists>s'. calculateMonsterStats FIRE 3 = Inr s' \<and>
         statsLe \<lparr>health = 150, attack = 19, defense = 6, speed = 132, radius = 30\<rparr> s')"
proof -
  have h1: "FIRE \<in> {FIRE, WATER, EARTH, AIR}" by simp
  from calculateMonsterStats_curves[OF h1] obtain base where
    b: "BASE_MONSTER_STATS FIRE = Some base" and
    e: "\<forall>level \<in> {1, 2, 3, 4, 5, 6, 7, 8, 9, 10, 11, 12, 13}.
          calculateMonsterStats FIRE level = Inr (scaledStats base level)" and
    m: "\<forall>level level'. level \<le> level' \<longrightarrow>
          (\<exists>s s'. calculateMonsterStats FIRE level = Inr s \<and>
                  calculateMonsterStats FIRE level' = Inr s' \<and> statsLe s s')"
    by blast
  from b have base: "base = \<lparr>health = 100, attack = 15, defense = 5, speed = 120, radius = 25\<rparr>"
    by (simp add: BASE_MONSTER_STATS_def)
  have v: "scaledStats base 2 =
             \<lparr>health = 150, attack = 19, defense = 6, speed = 132, radius = 30\<rparr>"
    unfolding base by (simp add: scaledStats_def)
  from e have e2: "calculateMonsterStats FIRE 2 = Inr (scaledStats base 2)" by simp
  from m have "\<exists>s s'. calculateMonsterStats FIRE 2 = Inr s \<and>
                  calculateMonsterStats FIRE 3 = Inr s' \<and> statsLe s s'"
    by simp
  with e2 have "\<exists>s'. calculateMonsterStats FIRE 3 = Inr s' \<and> statsLe (scaledStats base 2) s'"
    by auto
  with h1 e2 v show ?thesis by simp
qed

lemma fire1: "calculateMonsterStats FIRE 1 =
    Inr \<lparr>health = 100, attack = 15, defense = 5, speed = 120, radius = 25\<rparr>"
  by (simp add: stat_eval)

lemma water1: "calculateMonsterStats WATER 1 =
    Inr \<lparr>health = 120, attack = 10, defense = 10, speed = 100, radius = 25\<rparr>"
  by (simp add: stat_eval)

lemma air1: "calculateMonsterStats 3 1 =
    Inr \<lparr>health = 80, attack = 12, defense = 8, speed = 140, radius = 25\<rparr>"
  by (simp add: stat_eval)

lemma fire_neg3: "calculateMonsterStats FIRE (- 3) =
    Inr \<lparr>health = - 100, attack = - 3, defense = - 1, speed = 72, radius = 4\<rparr>"
  by (simp add: stat_eval)

lemma calculateMonsterStats_known:
  "ty \<in> {FIRE, WATER, EARTH, AIR} \<Longrightarrow> \<exists>stats. calculateMonsterStats ty level = Inr stats"
  by (auto simp: calculateMonsterStats_def BASE_MONSTER_STATS_def)

lemma calculateMonsterStats_unknown:
  "ty \<notin> {FIRE, WATER, EARTH, AIR} \<Longrightarrow> calculateMonsterStats ty level = Inl TypeError"
  by (auto simp: calculateMonsterStats_def BASE_MONSTER_STATS_def)

section \<open>Creating monsters\<close>

lemma addMonsterComponents_frame [simp]:
  "entities (addMonsterComponents e x y ty level stats m w) = entities w"
  "nextEid (addMonsterComponents e x y ty level stats m w) = nextEid w"
  "events (addMonsterComponents e x y ty level stats m w) = events w"
  "playerEntities (addMonsterComponents e x y ty level stats m w) = playerEntities w"
  "deadEntities (addMonsterComponents e x y ty level stats m w) = deadEntities w"
  "delta (addMonsterComponents e x y ty level stats m w) = delta w"
  "config (addMonsterComponents e x y ty level stats m w) = config w"
  by (simp_all add: addMonsterComponents_def Let_def)

lemma addMonsterComponents_comps:
  "comps (addMonsterComponents e x y ty level stats m w) =
     (comps w)(e := comps w e \<union> monsterComponents)"
  by (auto simp: addMonsterComponents_def Let_def monsterComponents_def fun_eq_iff)

lemma addMonsterComponents_rd:
  "rd (addMonsterComponents e x y ty level stats m w) f e' =
     (if e' = e then
        (case f of
           Position_x \<Rightarrow> x | Position_y \<Rightarrow> y
         | Velocity_x \<Rightarrow> 0 | Velocity_y \<Rightarrow> 0
         | Health_current \<Rightarrow> health stats | Health_max \<Rightarrow> health stats
         | Attack_damage \<Rightarrow> attack stats | Attack_range \<Rightarrow> radius stats * 1.5
         | Attack_cooldown \<Rightarrow> 1 | Attack_timer \<Rightarrow> 0
         | Defense_value \<Rightarrow> defense stats
         | Monster_type \<Rightarrow> ty | Monster_level \<Rightarrow> level
         | Mergeable_canMerge \<Rightarrow> m
         | Collider_radius \<Rightarrow> radius stats | Collider_isTrigger \<Rightarrow> 0
         | Sprite_typeId \<Rightarrow> ty | Sprite_animationFrame \<Rightarrow> 0 | Sprite_scale \<Rightarrow> 1
         | Sprite_rotation \<Rightarrow> 0 | Sprite_opacity \<Rightarrow> 1
         | _ \<Rightarrow> rd w f e)
      else rd w f e')"
  by (cases f) (simp_all add: addMonsterComponents_def Let_def)

lemma createPlayerMonster_ok:
  assumes "calculateMonsterStats ty level = Inr stats"
  shows "fst (createPlayerMonster w x y ty level) = Inr (nextEid w)"
    and "entities (snd (createPlayerMonster w x y ty level)) = entities w @ [nextEid w]"
    and "comps (snd (createPlayerMonster w x y ty level)) =
           (comps w)(nextEid w := insert PlayerControlled (comps w (nextEid w) \<union> monsterComponents))"
    and "playerEntities (snd (createPlayerMonster w x y ty level)) = playerEntities w @ [nextEid w]"
    and "events (snd (createPlayerMonster w x y ty level)) =
           events w @ [MONSTER_SPAWNED (nextEid w) (x, y) ty level True]"
    and "rd (snd (createPlayerMonster w x y ty level)) f e =
           rd (addMonsterComponents (nextEid w) x y ty level stats 1 (snd (addEntity w))) f e"
  using assms
  by (simp_all add: createPlayerMonster_def addEntity_def Let_def addMonsterComponents_comps)

lemma createPlayerMonster_more:
  assumes "calculateMonsterStats ty level = Inr stats"
  shows "nextEid (snd (createPlayerMonster w x y ty level)) = Suc (nextEid w)"
    and "delta (snd (createPlayerMonster w x y ty level)) = delta w"
  using assms by (simp_all add: createPlayerMonster_def addEntity_def Let_def)

lemma createPlayerMonster_err:
  assumes "calculateMonsterStats ty level = Inl err"
  shows "createPlayerMonster w x y ty level = (Inl err, snd (addEntity w))"
  using assms by (simp add: createPlayerMonster_def Let_def split: prod.split)

lemma createEnemyMonster_ok:
  assumes "calculateMonsterStats ty level = Inr stats"
  shows "fst (createEnemyMonster w x y ty level) = Inr (nextEid w)"
    and "entities (snd (createEnemyMonster w x y ty level)) = entities w @ [nextEid w]"
    and "nextEid (snd (createEnemyMonster w x y ty level)) = Suc (nextEid w)"
    and "delta (snd (createEnemyMonster w x y ty level)) = delta w"
    and "comps (snd (createEnemyMonster w x y ty level)) =
           (comps w)(nextEid w := insert Enemy (insert AI (comps w (nextEid w) \<union> monsterComponents)))"
    and "events (snd (createEnemyMonster w x y ty level)) =
           events w @ [MONSTER_SPAWNED (nextEid w) (x, y) ty level False]"
    and "f \<notin> {AI_state, AI_targetEntity, AI_detectionRange, AI_decisionTimer} \<Longrightarrow>
         rd (snd (createEnemyMonster w x y ty level)) f e =
           rd (addMonsterComponents (nextEid w) x y ty level stats 0 (snd (addEntity w))) f e"
  using assms
  by (simp_all add: createEnemyMonster_def addEntity_def Let_def addMonsterComponents_comps)

text \<open>
  Claim C9 as worded fails: \<open>createPlayerMonster\<close> accepts a level of \<open>-3\<close>. The call
  returns the new entity, lists it among the player entities and gives it a health of
  \<open>-100\<close> and a damage of \<open>-3\<close>; the attacker query of the next frame selects it.
\<close>

theorem negative_level_accepted:
  "fst recruit = Inr 0 \<and> entities (snd recruit) = [0] \<and> playerEntities (snd recruit) = [0] \<and>
   rd (snd recruit) Monster_level 0 = - 3 \<and> rd (snd recruit) Health_current 0 = - 100 \<and>
   rd (snd recruit) Attack_damage 0 = - 3 \<and>
   attackerQuery (snd recruit) = [0]"
  by (simp add: recruit_def createPlayerMonster_ok[OF fire_neg3] newWorld_facts
        addMonsterComponents_rd attackerQuery_def defineQuery_def hasComponent_def
        monsterComponents_def)

text \<open>
  Claim C9, amended. Creation validates nothing. For a type with an entry in the base table
  and any level, negative ones included, \<open>createPlayerMonster\<close> returns the new entity with
  its components, its stats from \<open>calculateMonsterStats\<close>, its place in
  \<open>playerEntities\<close> and its spawn event. For any other type the call ends in the TypeError
  of \<open>calculateMonsterStats\<close> and attaches no component, adds no player entity and emits
  no event. The method of the game object passes level 1 always.
\<close>

theorem creation_is_unvalidated:
  "(ty \<in> {FIRE, WATER, EARTH, AIR} \<longrightarrow>
      (\<exists>stats. calculateMonsterStats ty level = Inr stats \<and>
         fst (createPlayerMonster w x y ty level) = Inr (nextEid w) \<and>
         (let w' = snd (createPlayerMonster w x y ty level); e = nextEid w
          in entities w' = entities w @ [e] \<and>
             monsterComponents \<subseteq> comps w' e \<and> PlayerControlled \<in> comps w' e \<and>
             rd w' Monster_type e = ty \<and> rd w' Monster_level e = level \<and>
             rd w' Health_current e = health stats \<and> rd w' Attack_damage e = attack stats \<and>
             playerEntities w' = playerEntities w @ [e] \<and>
             events w' = events w @ [MONSTER_SPAWNED e (x, y) ty level True]))) \<and>
   (ty \<notin> {FIRE, WATER, EARTH, AIR} \<longrightarrow>
      fst (createPlayerMonster w x y ty level) = Inl TypeError \<and>
      (let w' = snd (createPlayerMonster w x y ty level)
       in comps w' = comps w \<and> store w' = store w \<and>
          playerEntities w' = playerEntities w \<and> events w' = events w)) \<and>
   Game_createPlayerMonster w x y ty = createPlayerMonster w x y ty 1"
proof (intro conjI impI)
  assume "ty \<in> {FIRE, WATER, EARTH, AIR}"
  then obtain stats where s: "calculateMonsterStats ty level = Inr stats"
    using calculateMonsterStats_known by blast
  show "\<exists>stats. calculateMonsterStats ty level = Inr stats \<and>
         fst (createPlayerMonster w x y ty level) = Inr (nextEid w) \<and>
         (let w' = snd (createPlayerMonster w x y ty level); e = nextEid w
          in entities w' = entities w @ [e] \<and>
             monsterComponents \<subseteq> comps w' e \<and> PlayerControlled \<in> comps w' e \<and>
             rd w' Monster_type e = ty \<and> rd w' Monster_level e = level \<and>
             rd w' Health_current e = health stats \<and> rd w' Attack_damage e = attack stats \<and>
             playerEntities w' = playerEntities w @ [e] \<and>
             events w' = events w @ [MONSTER_SPAWNED e (x, y) ty level True])"
    by (rule exI[of _ stats])
       (auto simp: s createPlayerMonster_ok[OF s] addMonsterComponents_rd Let_def)
next
  assume "ty \<notin> {FIRE, WATER, EARTH, AIR}"
  then have e: "calculateMonsterStats ty level = Inl TypeError"
    by (rule calculateMonsterStats_unknown)
  show "fst (createPlayerMonster w x y ty level) = Inl TypeError"
    by (simp add: createPlayerMonster_err[OF e])
  show "let w' = snd (createPlayerMonster w x y ty level)
       in comps w' = comps w \<and> store w' = store w \<and>
          playerEntities w' = playerEntities w \<and> events w' = events w"
    by (simp add: createPlayerMonster_err[OF e] addEntity_def)
next
  show "Game_createPlayerMonster w x y ty = createPlayerMonster w x y ty 1"
    by (simp add: Game_createPlayerMonster_def)
qed

text \<open>
  In a new game a FIRE monster of level 1 is created as entity 0 with 100 health, and type
  7 ends in the TypeError.
\<close>

theorem creation_is_unvalidated_witness:
  "FIRE \<in> {FIRE, WATER, EARTH, AIR} \<and>
   fst (createPlayerMonster (newWorld DEFAULT_CONFIG) 400 300 FIRE 1) = Inr 0 \<and>
   playerEntities (snd (createPlayerMonster (newWorld DEFAULT_CONFIG) 400 300 FIRE 1)) = [0] \<and>
   rd (snd (createPlayerMonster (newWorld DEFAULT_CONFIG) 400 300 FIRE 1)) Health_current 0 = 100 \<and>
   7 \<notin> {FIRE, WATER, EARTH, AIR} \<and>
   fst (createPlayerMonster (newWorld DEFAULT_CONFIG) 400 300 7 1) = Inl TypeError \<and>
   playerEntities (snd (createPlayerMonster (newWorld DEFAULT_CONFIG) 400 300 7 1)) = [] \<and>
   Game_createPlayerMonster (newWorld DEFAULT_CONFIG) 400 300 FIRE =
     createPlayerMonster (newWorld DEFAULT_CONFIG) 400 300 FIRE 1"
proof -
  have h1: "FIRE \<in> {FIRE, WATER, EARTH, AIR}" by simp
  have h2: "7 \<notin> {FIRE, WATER, EARTH, AIR}"
    by (simp add: FIRE_def WATER_def EARTH_def AIR_def)
  from creation_is_unvalidated[of FIRE 1 "newWorld DEFAULT_CONFIG" 400 300] h1
  have a: "fst (createPlayerMonster (newWorld DEFAULT_CONFIG) 400 300 FIRE 1) = Inr 0 \<and>
     playerEntities (snd (createPlayerMonster (newWorld DEFAULT_CONFIG) 400 300 FIRE 1)) = [0] \<and>
     rd (snd (createPlayerMonster (newWorld DEFAULT_CONFIG) 400 300 FIRE 1)) Health_current 0 = 100 \<and>
     Game_createPlayerMonster (newWorld DEFAULT_CONFIG) 400 300 FIRE =
       createPlayerMonster (newWorld DEFAULT_CONFIG) 400 300 FIRE 1"
    by (auto simp: Let_def newWorld_facts fire1)
  from creation_is_unvalidated[of 7 1 "newWorld DEFAULT_CONFIG" 400 300] h2
  have b: "fst (createPlayerMonster (newWorld DEFAULT_CONFIG) 400 300 7 1) = Inl TypeError \<and>
     playerEntities (snd (createPlayerMonster (newWorld DEFAULT_CONFIG) 400 300 7 1)) = []"
    by (simp add: Let_def newWorld_facts)
  from a b h1 h2 show ?thesis by simp
qed

section \<open>Spawning enemies\<close>

lemma spawn_result:
  "fst (createEnemyMonster w x y ty l) = Inr n \<Longrightarrow>
   (case createEnemyMonster w x y ty l of
      (Inl err, w') \<Rightarrow> (Inl err, w')
    | (Inr entity, w') \<Rightarrow> (Inr (), w')) = (Inr (), snd (createEnemyMonster w x y ty l))"
  by (cases "createEnemyMonster w x y ty l") auto

text \<open>
  Claim C3 at a failing input. With two configured monster types and a type roll of 0.9 the
  spawn system creates an enemy of type 3 (AIR), outside the configured types; the
  configured count gives \<open>\<lfloor>0.9 \<times> 2\<rfloor> = 1\<close> (WATER), which is also what the type draw of
  the initial player monsters computes from the same roll.
\<close>

theorem spawn_type_ignores_config:
  "monsterTypes (config twoTypeWorld) = 2 \<and>
   spawnTimer twoTypeWorld - delta twoTypeWorld \<le> 0 \<and>
   fst (spawnSystem typeRolls twoTypeWorld) = Inr () \<and>
   entities (snd (spawnSystem typeRolls twoTypeWorld)) = [0] \<and>
   hasComponent (snd (spawnSystem typeRolls twoTypeWorld)) Enemy 0 \<and>
   rd (snd (spawnSystem typeRolls twoTypeWorld)) Monster_type 0 = AIR \<and>
   real_of_int \<lfloor>rollType typeRolls * monsterTypes (config twoTypeWorld)\<rfloor> = WATER \<and>
   initialMonsterType twoTypeWorld (rollType typeRolls) = WATER"
proof -
  have c: "monsterTypes (config twoTypeWorld) = 2" "spawnTimer twoTypeWorld = 0.05"
    "delta twoTypeWorld = 0.1"
    by (simp_all add: twoTypeWorld_def newWorld_def DEFAULT_CONFIG_def)
  have r: "rollType typeRolls = 0.9" "rollLevel typeRolls = 0.5" "rollEdge typeRolls = 0.2"
    "rollA typeRolls = 0.5" "rollB typeRolls = 0.7"
    by (simp_all add: typeRolls_def)
  have n: "nextEid twoTypeWorld = 0" "entities twoTypeWorld = []"
    "comps twoTypeWorld = (\<lambda>e. {})"
    "arenaWidth (config twoTypeWorld) = 800" "arenaHeight (config twoTypeWorld) = 600"
    by (simp_all add: twoTypeWorld_def newWorld_def DEFAULT_CONFIG_def)
  show ?thesis
    by (simp add: spawnSystem_def Let_def c r n spawn_result createEnemyMonster_ok[OF air1]
          hasComponent_def addMonsterComponents_rd initialMonsterType_def AIR_def WATER_def)
qed

section \<open>Attack: cooldown decay\<close>

lemma decayTimer_other: "e \<noteq> a \<or> f \<noteq> Attack_timer \<Longrightarrow> rd (decayTimer dt a w) f e = rd w f e"
  by (auto simp: decayTimer_def)

lemma decayTimer_self:
  "rd (decayTimer dt a w) Attack_timer a =
     (if rd w Attack_timer a > 0 then rd w Attack_timer a - dt else rd w Attack_timer a)"
  by (simp add: decayTimer_def)

lemma decayTimer_ready:
  "rd w Attack_timer a \<le> 0 \<Longrightarrow> rd (decayTimer dt b w) Attack_timer a = rd w Attack_timer a"
  by (auto simp: decayTimer_def)

lemma decayTimer_frame [simp]:
  "events (decayTimer dt a w) = events w" "comps (decayTimer dt a w) = comps w"
  "entities (decayTimer dt a w) = entities w" "delta (decayTimer dt a w) = delta w"
  by (simp_all add: decayTimer_def)

lemma fold_decayTimer_frame [simp]:
  "events (fold (decayTimer dt) xs w) = events w" "comps (fold (decayTimer dt) xs w) = comps w"
  "entities (fold (decayTimer dt) xs w) = entities w" "delta (fold (decayTimer dt) xs w) = delta w"
  by (induction xs arbitrary: w; simp)+

lemma fold_decayTimer_other:
  "e \<notin> set xs \<or> f \<noteq> Attack_timer \<Longrightarrow> rd (fold (decayTimer dt) xs w) f e = rd w f e"
  by (induction xs arbitrary: w) (auto simp: decayTimer_other)

lemma fold_decayTimer_in:
  "distinct xs \<Longrightarrow> e \<in> set xs \<Longrightarrow>
   rd (fold (decayTimer dt) xs w) Attack_timer e =
     (if rd w Attack_timer e > 0 then rd w Attack_timer e - dt else rd w Attack_timer e)"
proof (induction xs arbitrary: w)
  case Nil
  then show ?case by simp
next
  case (Cons x xs)
  show ?case
  proof (cases "x = e")
    case True
    with Cons.prems have "e \<notin> set xs" by simp
    then have "rd (fold (decayTimer dt) xs (decayTimer dt e w)) Attack_timer e =
               rd (decayTimer dt e w) Attack_timer e"
      by (simp add: fold_decayTimer_other)
    with True show ?thesis by (simp add: decayTimer_self)
  next
    case False
    with Cons.prems have "distinct xs" "e \<in> set xs" by auto
    from Cons.IH[OF this, of "decayTimer dt x w"] False show ?thesis
      by (simp add: decayTimer_other)
  qed
qed

lemma decayCooldowns_ready:
  assumes "rd w Attack_timer a \<le> 0"
  shows "rd (decayCooldowns w) Attack_timer a = rd w Attack_timer a"
proof -
  have "rd (fold (decayTimer dt) xs w) Attack_timer a = rd w Attack_timer a" for dt xs
    using assms by (induction xs arbitrary: w) (simp_all add: decayTimer_ready)
  then show ?thesis by (simp add: decayCooldowns_def)
qed

lemma attackSystem_decomp:
  "attackSystem w = resolveAttacks (attackerQuery w) (damageableQuery w) (decayCooldowns w)"
  by (simp add: attackSystem_def decayCooldowns_def Let_def)

text \<open>
  Claim C2 as worded fails: in the scenario world the attacker's timer is 0 and the frame
  lasts 0.1 seconds, and the decay pass leaves the timer at 0 instead of \<open>-0.1\<close>.
\<close>

theorem cooldown_unchanged_when_ready:
  "0 \<in> set (attackerQuery scenarioWorld) \<and>
   rd scenarioWorld Attack_timer 0 = 0 \<and> delta scenarioWorld = 0.1 \<and>
   rd (decayCooldowns scenarioWorld) Attack_timer 0 = 0 \<and>
   rd (decayCooldowns scenarioWorld) Attack_timer 0 \<noteq>
     rd scenarioWorld Attack_timer 0 - delta scenarioWorld"
  by (simp add: decayCooldowns_def scenario_queries decayTimer_def scenario_rd scenarioStore_def)

text \<open>
  Claim C2, amended. In the decay pass the timer of every entity with Position and Attack
  decreases by exactly the frame's delta when it is positive before the pass, with no lower
  bound on the result, and keeps its value when it is zero or negative.
\<close>

theorem cooldown_decay_guarded:
  assumes "distinct (entities w)" and "e \<in> set (attackerQuery w)"
  shows "rd (decayCooldowns w) Attack_timer e =
           (if rd w Attack_timer e > 0 then rd w Attack_timer e - delta w
            else rd w Attack_timer e)"
  unfolding decayCooldowns_def
  using assms by (intro fold_decayTimer_in) (simp_all add: attackerQuery_def distinct_defineQuery)

text \<open>
  A timer of 0.05 decays to \<open>-0.05\<close> in a frame of 0.1 seconds.
\<close>

theorem cooldown_decay_guarded_witness:
  "distinct (entities coolingWorld) \<and> 0 \<in> set (attackerQuery coolingWorld) \<and>
   rd coolingWorld Attack_timer 0 = 0.05 \<and> delta coolingWorld = 0.1 \<and>
   rd (decayCooldowns coolingWorld) Attack_timer 0 = - 0.05"
proof -
  have q: "attackerQuery coolingWorld = [0]" "entities coolingWorld = [0, 1]"
    "delta coolingWorld = 0.1" "rd coolingWorld Attack_timer 0 = 0.05"
    using scenario_queries
    by (simp_all add: coolingWorld_def attackerQuery_def defineQuery_def)
  have h1: "distinct (entities coolingWorld)" and h2: "0 \<in> set (attackerQuery coolingWorld)"
    by (simp_all add: q)
  from cooldown_decay_guarded[OF h1 h2] h1 h2 show ?thesis
    by (simp add: q)
qed

section \<open>Attack: resolution\<close>

lemma scanTargets_find:
  "scanTargets a (rd w Position_x a) (rd w Position_y a) (rd w Attack_range a) ts w =
     (case find (inRange w a) ts of
        None \<Rightarrow> w
      | Some t \<Rightarrow> strike a t (rd w Position_x t) (rd w Position_y t)
                   (rd w Position_x t - rd w Position_x a) (rd w Position_y t - rd w Position_y a) w)"
  by (induction ts) (simp_all add: inRange_def Let_def)

lemma processAttacker_find:
  "processAttacker ts a w =
     (if rd w Attack_timer a > 0 then w
      else case find (inRange w a) ts of
        None \<Rightarrow> w
      | Some t \<Rightarrow> strike a t (rd w Position_x t) (rd w Position_y t)
                   (rd w Position_x t - rd w Position_x a) (rd w Position_y t - rd w Position_y a) w)"
  by (simp add: processAttacker_def scanTargets_find)

lemma strike_events:
  "events (strike a t tx ty dx dy w) = events w @ [MONSTER_DAMAGED t a (rd w Attack_damage a) (tx, ty)]"
  by (simp add: strike_def Let_def)

lemma strike_rd:
  "rd (strike a t tx ty dx dy w) f e =
     (if f = Attack_timer \<and> e = a then rd w Attack_cooldown a
      else if f = Knockback_remaining \<and> e = t then 0.2
      else if f = Knockback_direction \<and> e = t then atan2 dy dx
      else if f = Knockback_force \<and> e = t then rd w Attack_damage a * 10
      else if f = Health_current \<and> e = t then rd w Health_current t - rd w Attack_damage a
      else rd w f e)"
  by (simp add: strike_def Let_def)

lemma strike_hasKnockback: "hasComponent (strike a t tx ty dx dy w) Knockback t"
  by (simp add: strike_def Let_def hasComponent_def)

lemma sameArena_inRange: "sameArena w w' \<Longrightarrow> inRange w' a = inRange w a"
  by (auto simp: sameArena_def inRange_def fun_eq_iff)

lemma sameArena_strikeEvents:
  assumes "sameArena w w'" and "rd w' Attack_timer a = rd w Attack_timer a"
  shows "strikeEvents ts w' a = strikeEvents ts w a"
proof -
  have "inRange w' a = inRange w a" by (rule sameArena_inRange[OF assms(1)])
  with assms show ?thesis
    by (simp add: strikeEvents_def sameArena_def split: option.split)
qed

lemma processAttacker_sameArena: "sameArena w (processAttacker ts a w)"
  by (simp add: processAttacker_find sameArena_def strike_rd split: option.split)

lemma processAttacker_timer_other:
  "e \<noteq> a \<Longrightarrow> rd (processAttacker ts a w) Attack_timer e = rd w Attack_timer e"
  by (simp add: processAttacker_find strike_rd split: option.split)

lemma processAttacker_events:
  "events (processAttacker ts a w) = events w @ strikeEvents ts w a"
  by (simp add: processAttacker_find strikeEvents_def strike_events split: option.split)

lemma resolve_events:
  "distinct as \<Longrightarrow>
   events (fold (processAttacker ts) as w) = events w @ concat (map (strikeEvents ts w) as)"
proof (induction as arbitrary: w)
  case Nil
  then show ?case by simp
next
  case (Cons a as)
  let ?w' = "processAttacker ts a w"
  from Cons.prems have d: "distinct as" and notin: "a \<notin> set as" by auto
  have "map (strikeEvents ts ?w') as = map (strikeEvents ts w) as"
  proof (rule map_cong[OF refl])
    fix b assume "b \<in> set as"
    with notin have "b \<noteq> a" by auto
    then show "strikeEvents ts ?w' b = strikeEvents ts w b"
      by (intro sameArena_strikeEvents processAttacker_sameArena processAttacker_timer_other)
  qed
  with Cons.IH[OF d, of ?w'] show ?case
    by (simp add: processAttacker_events)
qed

lemma decayCooldowns_sameArena: "sameArena w (decayCooldowns w)"
  by (simp add: sameArena_def decayCooldowns_def fold_decayTimer_other)

lemma decayCooldowns_frame [simp]:
  "events (decayCooldowns w) = events w" "comps (decayCooldowns w) = comps w"
  "entities (decayCooldowns w) = entities w"
  by (simp_all add: decayCooldowns_def)

lemma attackSystem_events:
  assumes "distinct (entities w)"
  shows "events (attackSystem w) =
           events w @ concat (map (strikeEvents (damageableQuery w) (decayCooldowns w)) (attackerQuery w))"
  using assms
  by (simp add: attackSystem_decomp resolveAttacks_def resolve_events attackerQuery_def
        distinct_defineQuery)

lemma strikeEvents_damagedBy:
  "filter (damagedBy a) (strikeEvents ts w b) = (if a = b then strikeEvents ts w b else [])"
  by (auto simp: strikeEvents_def damagedBy_def split: option.split)

lemma length_strikeEvents: "length (strikeEvents ts w a) \<le> 1"
  by (simp add: strikeEvents_def split: option.split)

lemma count_strikes:
  "distinct as \<Longrightarrow> length (filter (damagedBy a) (concat (map (strikeEvents ts w) as))) \<le> 1"
proof (induction as)
  case Nil
  then show ?case by simp
next
  case (Cons b as)
  show ?case
  proof (cases "a = b")
    case True
    with Cons.prems have "a \<notin> set as" by simp
    then have "filter (damagedBy a) (concat (map (strikeEvents ts w) as)) = []"
      by (induction as) (auto simp: strikeEvents_damagedBy)
    with True length_strikeEvents[of ts w b] show ?thesis
      by (simp add: strikeEvents_damagedBy)
  next
    case False
    with Cons show ?thesis by (simp add: strikeEvents_damagedBy)
  qed
qed

lemma strikeEvents_member:
  "MONSTER_DAMAGED t a d p \<in> set (strikeEvents ts w b) \<Longrightarrow>
   a = b \<and> rd w Attack_timer a \<le> 0 \<and> find (inRange w a) ts = Some t \<and>
   d = rd w Attack_damage a \<and> p = (rd w Position_x t, rd w Position_y t)"
  by (auto simp: strikeEvents_def split: if_splits option.splits)

lemma strikeEvents_damagedBy_member:
  "ev \<in> set (strikeEvents ts w b) \<Longrightarrow> damagedBy a ev \<Longrightarrow> rd w Attack_timer a \<le> 0"
  by (auto simp: strikeEvents_def damagedBy_def split: if_splits option.splits)

lemma strikeEvents_ready:
  assumes "rd w Attack_timer a \<le> 0" and "find (inRange w a) ts = Some t"
  shows "strikeEvents ts w a =
           [MONSTER_DAMAGED t a (rd w Attack_damage a) (rd w Position_x t, rd w Position_y t)]"
  using assms by (simp add: strikeEvents_def)

lemma scenario_firstTarget: "firstTarget scenarioWorld 0 = Some 1"
  by (simp add: firstTarget_def scenario_queries inRange_def scenario_rd scenarioStore_def
        sqrt_le_iff_sq)

subsection \<open>The whole pass\<close>

lemma processAttacker_rd:
  "rd (processAttacker ts a v) f e =
     (if rd v Attack_timer a \<le> 0 then
        (case find (inRange v a) ts of
           None \<Rightarrow> rd v f e
         | Some t \<Rightarrow>
             (if f = Attack_timer \<and> e = a then rd v Attack_cooldown a
              else if f = Knockback_remaining \<and> e = t then 0.2
              else if f = Knockback_direction \<and> e = t
                then atan2 (rd v Position_y t - rd v Position_y a) (rd v Position_x t - rd v Position_x a)
              else if f = Knockback_force \<and> e = t then rd v Attack_damage a * 10
              else if f = Health_current \<and> e = t then rd v Health_current t - rd v Attack_damage a
              else rd v f e))
      else rd v f e)"
  by (simp add: processAttacker_find strike_rd not_less split: option.split)

lemma find_inRange_ne: "find (inRange v a) ts = Some t \<Longrightarrow> t \<noteq> a"
  by (auto simp: find_Some_iff inRange_def)

lemma processAttacker_cooldown:
  "rd (processAttacker ts a v) Attack_cooldown e = rd v Attack_cooldown e"
  by (simp add: processAttacker_rd split: option.split)

lemma strikes_cong:
  assumes "b \<noteq> a"
  shows "(rd (processAttacker ts a v) Attack_timer b \<le> 0 \<and>
          find (inRange (processAttacker ts a v) b) ts = Some t) \<longleftrightarrow>
         (rd v Attack_timer b \<le> 0 \<and> find (inRange v b) ts = Some t)"
  using assms
  by (simp add: processAttacker_timer_other sameArena_inRange[OF processAttacker_sameArena])

lemma filter_strikes_cong:
  assumes "a \<notin> set as"
  shows "filter (\<lambda>b. rd (processAttacker ts a v) Attack_timer b \<le> 0 \<and>
                     find (inRange (processAttacker ts a v) b) ts = Some t) as =
         filter (\<lambda>b. rd v Attack_timer b \<le> 0 \<and> find (inRange v b) ts = Some t) as"
proof (rule filter_cong[OF refl])
  fix b assume "b \<in> set as"
  with assms have "b \<noteq> a" by auto
  then show "(rd (processAttacker ts a v) Attack_timer b \<le> 0 \<and>
          find (inRange (processAttacker ts a v) b) ts = Some t) =
         (rd v Attack_timer b \<le> 0 \<and> find (inRange v b) ts = Some t)"
    by (rule strikes_cong)
qed

lemma processAttacker_static:
  "rd (processAttacker ts a v) Attack_damage e = rd v Attack_damage e"
  "rd (processAttacker ts a v) Position_x e = rd v Position_x e"
  "rd (processAttacker ts a v) Position_y e = rd v Position_y e"
  using processAttacker_sameArena[of v ts a] by (simp_all add: sameArena_def)

lemma resolve_health:
  "distinct as \<Longrightarrow>
   rd (fold (processAttacker ts) as v) Health_current t =
     rd v Health_current t -
     sum_list (map (rd v Attack_damage)
       (filter (\<lambda>a. rd v Attack_timer a \<le> 0 \<and> find (inRange v a) ts = Some t) as))"
proof (induction as arbitrary: v)
  case Nil
  then show ?case by simp
next
  case (Cons a as)
  let ?v' = "processAttacker ts a v"
  from Cons.prems have d: "distinct as" and notin: "a \<notin> set as" by auto
  have step: "rd ?v' Health_current t =
      rd v Health_current t -
      (if rd v Attack_timer a \<le> 0 \<and> find (inRange v a) ts = Some t then rd v Attack_damage a else 0)"
    by (auto simp: processAttacker_rd split: option.split)
  have dmg: "map (rd ?v' Attack_damage) xs = map (rd v Attack_damage) xs" for xs
    by (simp add: processAttacker_static)
  show ?case
    using Cons.IH[OF d, of ?v']
    by (simp add: filter_strikes_cong[OF notin] dmg step)
qed

lemma knockOf_cong: "sameArena v v' \<Longrightarrow> knockOf v' a t f = knockOf v a t f"
  by (simp add: knockOf_def sameArena_def)

lemma resolve_knockback:
  assumes "f \<in> {Knockback_force, Knockback_direction, Knockback_remaining}"
  shows "distinct as \<Longrightarrow>
   rd (fold (processAttacker ts) as v) f t =
     (let xs = filter (\<lambda>a. rd v Attack_timer a \<le> 0 \<and> find (inRange v a) ts = Some t) as
      in if xs = [] then rd v f t else knockOf v (last xs) t f)"
proof (induction as arbitrary: v)
  case Nil
  then show ?case by simp
next
  case (Cons a as)
  let ?v' = "processAttacker ts a v"
  from Cons.prems have d: "distinct as" and notin: "a \<notin> set as" by auto
  have step: "rd ?v' f t =
      (if rd v Attack_timer a \<le> 0 \<and> find (inRange v a) ts = Some t then knockOf v a t f
       else rd v f t)"
    using assms by (auto simp: processAttacker_rd knockOf_def split: option.split)
  have k: "knockOf ?v' b t f = knockOf v b t f" for b
    by (rule knockOf_cong[OF processAttacker_sameArena])
  show ?case
    using Cons.IH[OF d, of ?v']
    by (simp add: filter_strikes_cong[OF notin] step k Let_def)
qed

lemma processAttacker_comps:
  "comps v e \<subseteq> comps (processAttacker ts a v) e"
  "rd v Attack_timer a \<le> 0 \<Longrightarrow> find (inRange v a) ts = Some t \<Longrightarrow>
   Knockback \<in> comps (processAttacker ts a v) t"
  by (auto simp: processAttacker_find strike_def Let_def hasComponent_def not_less
      split: option.split)

lemma fold_processAttacker_comps:
  "comps v e \<subseteq> comps (fold (processAttacker ts) as v) e"
proof (induction as arbitrary: v)
  case Nil
  then show ?case by simp
next
  case (Cons a as)
  from processAttacker_comps(1)[of v e ts a] Cons.IH[of "processAttacker ts a v"]
  show ?case by auto
qed

lemma resolve_hasKnockback:
  "distinct as \<Longrightarrow>
   filter (\<lambda>a. rd v Attack_timer a \<le> 0 \<and> find (inRange v a) ts = Some t) as \<noteq> [] \<Longrightarrow>
   Knockback \<in> comps (fold (processAttacker ts) as v) t"
proof (induction as arbitrary: v)
  case Nil
  then show ?case by simp
next
  case (Cons a as)
  let ?v' = "processAttacker ts a v"
  from Cons.prems have d: "distinct as" and notin: "a \<notin> set as" by auto
  show ?case
  proof (cases "rd v Attack_timer a \<le> 0 \<and> find (inRange v a) ts = Some t")
    case True
    then have "Knockback \<in> comps ?v' t" by (simp add: processAttacker_comps(2))
    with fold_processAttacker_comps[of ?v' t ts as] show ?thesis by auto
  next
    case False
    with Cons.prems(2) have
      "filter (\<lambda>a. rd v Attack_timer a \<le> 0 \<and> find (inRange v a) ts = Some t) as \<noteq> []"
      by auto
    then have "filter (\<lambda>b. rd ?v' Attack_timer b \<le> 0 \<and> find (inRange ?v' b) ts = Some t) as \<noteq> []"
      by (simp add: filter_strikes_cong[OF notin])
    from Cons.IH[OF d this] show ?thesis by simp
  qed
qed

lemma fold_processAttacker_timer_other:
  "a \<notin> set as \<Longrightarrow> rd (fold (processAttacker ts) as v) Attack_timer a = rd v Attack_timer a"
  by (induction as arbitrary: v) (auto simp: processAttacker_timer_other)

lemma resolve_timer:
  "distinct as \<Longrightarrow> a \<in> set as \<Longrightarrow> rd v Attack_timer a \<le> 0 \<Longrightarrow>
   find (inRange v a) ts = Some t \<Longrightarrow>
   rd (fold (processAttacker ts) as v) Attack_timer a = rd v Attack_cooldown a"
proof (induction as arbitrary: v)
  case Nil
  then show ?case by simp
next
  case (Cons b as)
  let ?v' = "processAttacker ts b v"
  show ?case
  proof (cases "b = a")
    case True
    with Cons.prems have "a \<notin> set as" by simp
    then have "rd (fold (processAttacker ts) as ?v') Attack_timer a = rd ?v' Attack_timer a"
      by (rule fold_processAttacker_timer_other)
    with True Cons.prems(3,4) show ?thesis
      by (simp add: processAttacker_rd)
  next
    case False
    with Cons.prems have d: "distinct as" and m: "a \<in> set as" by auto
    from False Cons.prems(3,4) have
      "rd ?v' Attack_timer a \<le> 0" "find (inRange ?v' a) ts = Some t"
      using strikes_cong[of a b ts v t] by simp_all
    from Cons.IH[OF d m this] show ?thesis
      by (simp add: processAttacker_cooldown)
  qed
qed

lemma filter_damagedBy_concat:
  "distinct as \<Longrightarrow> a \<in> set as \<Longrightarrow>
   filter (damagedBy a) (concat (map (strikeEvents ts v) as)) = strikeEvents ts v a"
proof (induction as)
  case Nil
  then show ?case by simp
next
  case (Cons b as)
  have none: "a \<notin> set xs \<Longrightarrow> filter (damagedBy a) (concat (map (strikeEvents ts v) xs)) = []" for xs
    by (induction xs) (auto simp: strikeEvents_damagedBy)
  show ?case
  proof (cases "a = b")
    case True
    with Cons.prems have "a \<notin> set as" by simp
    then have "filter (damagedBy a) (concat (map (strikeEvents ts v) as)) = []" by (rule none)
    with True show ?thesis by (simp add: strikeEvents_damagedBy)
  next
    case False
    with Cons show ?thesis by (simp add: strikeEvents_damagedBy)
  qed
qed

lemma decayCooldowns_rd_other:
  "f \<noteq> Attack_timer \<Longrightarrow> rd (decayCooldowns w) f e = rd w f e"
  by (simp add: decayCooldowns_def fold_decayTimer_other)

lemma strikers_alt:
  "strikers w t =
     filter (\<lambda>a. rd (decayCooldowns w) Attack_timer a \<le> 0 \<and>
                  find (inRange (decayCooldowns w) a) (damageableQuery w) = Some t)
       (attackerQuery w)"
  by (simp add: strikers_def firstTarget_def sameArena_inRange[OF decayCooldowns_sameArena])

lemma distinct_attackerQuery: "distinct (entities w) \<Longrightarrow> distinct (attackerQuery w)"
  by (simp add: attackerQuery_def distinct_defineQuery)

lemma attackSystem_health:
  assumes "distinct (entities w)"
  shows "rd (attackSystem w) Health_current t =
           rd w Health_current t - sum_list (map (rd w Attack_damage) (strikers w t))"
proof -
  have dmg: "rd (decayCooldowns w) Attack_damage = rd w Attack_damage"
    by (simp add: fun_eq_iff decayCooldowns_rd_other)
  show ?thesis
    by (simp add: attackSystem_decomp resolveAttacks_def
          resolve_health[OF distinct_attackerQuery[OF assms]] strikers_alt
          decayCooldowns_rd_other dmg)
qed

lemma attackSystem_knockback:
  assumes "distinct (entities w)"
      and "f \<in> {Knockback_force, Knockback_direction, Knockback_remaining}"
  shows "rd (attackSystem w) f t =
           (if strikers w t = [] then rd w f t else knockOf w (last (strikers w t)) t f)"
proof -
  have k: "knockOf (decayCooldowns w) a t f = knockOf w a t f" for a
    by (rule knockOf_cong[OF decayCooldowns_sameArena])
  from assms(2) have "f \<noteq> Attack_timer" by auto
  then have u: "rd (decayCooldowns w) f t = rd w f t" by (rule decayCooldowns_rd_other)
  show ?thesis
    by (simp add: attackSystem_decomp resolveAttacks_def
          resolve_knockback[OF assms(2) distinct_attackerQuery[OF assms(1)]] strikers_alt[symmetric]
          k u Let_def)
qed

lemma attackSystem_hasKnockback:
  assumes "distinct (entities w)" and "strikers w t \<noteq> []"
  shows "hasComponent (attackSystem w) Knockback t"
  using assms(2)
  by (simp add: hasComponent_def attackSystem_decomp resolveAttacks_def strikers_alt
        resolve_hasKnockback[OF distinct_attackerQuery[OF assms(1)]])

lemma attackSystem_striker:
  assumes "distinct (entities w)" and "a \<in> set (strikers w t)"
  shows "inRange w a t"
    and "rd (attackSystem w) Attack_timer a = rd w Attack_cooldown a"
    and "filter (damagedBy a) (drop (length (events w)) (events (attackSystem w))) =
           [MONSTER_DAMAGED t a (rd w Attack_damage a) (rd w Position_x t, rd w Position_y t)]"
proof -
  let ?v = "decayCooldowns w" and ?ts = "damageableQuery w"
  from assms(2) have m: "a \<in> set (attackerQuery w)" and r: "rd ?v Attack_timer a \<le> 0"
    and ft: "firstTarget w a = Some t"
    by (simp_all add: strikers_def)
  from ft have f: "find (inRange ?v a) ?ts = Some t"
    by (simp add: firstTarget_def sameArena_inRange[OF decayCooldowns_sameArena])
  from ft show "inRange w a t" by (auto simp: firstTarget_def find_Some_iff)
  show "rd (attackSystem w) Attack_timer a = rd w Attack_cooldown a"
    by (simp add: attackSystem_decomp resolveAttacks_def
          resolve_timer[OF distinct_attackerQuery[OF assms(1)] m r f] decayCooldowns_rd_other)
  show "filter (damagedBy a) (drop (length (events w)) (events (attackSystem w))) =
           [MONSTER_DAMAGED t a (rd w Attack_damage a) (rd w Position_x t, rd w Position_y t)]"
    by (simp add: attackSystem_events[OF assms(1)]
          filter_damagedBy_concat[OF distinct_attackerQuery[OF assms(1)] m]
          strikeEvents_ready[OF r f] decayCooldowns_rd_other)
qed

lemma crossfire_facts:
  "attackerQuery crossfireWorld = [0, 2]" "damageableQuery crossfireWorld = [0, 1, 2]"
  "entities crossfireWorld = [0, 1, 2]" "events crossfireWorld = []"
  by (simp_all add: attackerQuery_def damageableQuery_def defineQuery_def
        hasComponent_def crossfireWorld_def newWorld_def)

lemma crossfire_rd: "rd crossfireWorld f e = crossfireStore f e"
  by (simp add: rd_def crossfireWorld_def)

lemma crossfire_firstTarget:
  "firstTarget crossfireWorld 0 = Some 1" "firstTarget crossfireWorld 2 = Some 1"
  by (simp_all add: firstTarget_def crossfire_facts inRange_def crossfire_rd crossfireStore_def
        sqrt_le_iff_sq)

lemma crossfire_ready:
  "rd (decayCooldowns crossfireWorld) Attack_timer 0 = 0"
  "rd (decayCooldowns crossfireWorld) Attack_timer 2 = 0"
  by (subst decayCooldowns_ready; simp add: crossfire_rd crossfireStore_def)+

lemma crossfire_strikers: "strikers crossfireWorld (Suc 0) = [0, 2]"
  by (simp add: strikers_def crossfire_facts crossfire_ready crossfire_firstTarget)

lemma scenario_strikers: "strikers scenarioWorld (Suc 0) = [0]"
proof -
  have "rd (decayCooldowns scenarioWorld) Attack_timer 0 = 0"
    by (subst decayCooldowns_ready; simp add: scenario_rd scenarioStore_def)
  then show ?thesis
    by (simp add: strikers_def scenario_queries scenario_firstTarget)
qed

text \<open>
  Claim C4 as worded fails when two ready attackers share their first target. In the
  crossfire world attacker 0 is ready, its first target in range is entity 1 with 50 health,
  and its damage is 15; after the run the target's health is 25, not 35, and its Knockback has
  force 100 and direction \<open>\<pi>\<close>, those of the strike of entity 2, not 150 and 0.
\<close>

theorem two_attackers_one_target:
  "rd (decayCooldowns crossfireWorld) Attack_timer 0 \<le> 0 \<and>
   firstTarget crossfireWorld 0 = Some 1 \<and>
   rd crossfireWorld Health_current 1 = 50 \<and> rd crossfireWorld Attack_damage 0 = 15 \<and>
   rd (attackSystem crossfireWorld) Health_current 1 = 25 \<and>
   rd (attackSystem crossfireWorld) Knockback_force 1 = 100 \<and>
   rd (attackSystem crossfireWorld) Knockback_direction 1 = pi"
proof -
  have d: "distinct (entities crossfireWorld)" by (simp add: crossfire_facts)
  have h: "rd (attackSystem crossfireWorld) Health_current 1 = 25"
    by (simp add: attackSystem_health[OF d] crossfire_strikers crossfire_rd crossfireStore_def)
  have f: "rd (attackSystem crossfireWorld) Knockback_force 1 = 100"
    by (simp add: attackSystem_knockback[OF d] crossfire_strikers knockOf_def crossfire_rd
          crossfireStore_def)
  have k: "rd (attackSystem crossfireWorld) Knockback_direction 1 = pi"
    by (simp add: attackSystem_knockback[OF d] crossfire_strikers knockOf_def crossfire_rd
          crossfireStore_def atan2_def)
  from h f k show ?thesis
    by (simp add: crossfire_ready crossfire_firstTarget crossfire_rd crossfireStore_def)
qed

text \<open>
  Claim C4, amended. After one run of the attack system the current health of every target
  has decreased by exactly the sum of the damage of its strikers, the ready attackers whose
  first target in range it is, with no defense mitigation. A target with a striker carries a
  Knockback whose force is ten times the damage of the last striker, whose direction is
  \<open>atan2 dy dx\<close> from that striker to the target and whose remaining time is 0.2; a target
  without one keeps its Knockback fields. Every striker is in range of the target, its timer
  equals its cooldown, and exactly one \<^verbatim>\<open>MONSTER_DAMAGED\<close> event of it was appended,
  carrying the target, the striker, its damage and the target's position. With a single
  striker this is the postcondition of the claim.
\<close>

theorem attack_pass_postcondition:
  assumes "distinct (entities w)"
  shows "rd (attackSystem w) Health_current t =
           rd w Health_current t - sum_list (map (rd w Attack_damage) (strikers w t)) \<and>
         (strikers w t \<noteq> [] \<longrightarrow>
            (let a = last (strikers w t);
                 dx = rd w Position_x t - rd w Position_x a;
                 dy = rd w Position_y t - rd w Position_y a
             in hasComponent (attackSystem w) Knockback t \<and>
                rd (attackSystem w) Knockback_force t = rd w Attack_damage a * 10 \<and>
                rd (attackSystem w) Knockback_direction t = atan2 dy dx \<and>
                rd (attackSystem w) Knockback_remaining t = 0.2)) \<and>
         (strikers w t = [] \<longrightarrow>
            rd (attackSystem w) Knockback_force t = rd w Knockback_force t \<and>
            rd (attackSystem w) Knockback_direction t = rd w Knockback_direction t \<and>
            rd (attackSystem w) Knockback_remaining t = rd w Knockback_remaining t) \<and>
         (\<forall>a \<in> set (strikers w t).
            inRange w a t \<and>
            rd (attackSystem w) Attack_timer a = rd w Attack_cooldown a \<and>
            filter (damagedBy a) (drop (length (events w)) (events (attackSystem w))) =
              [MONSTER_DAMAGED t a (rd w Attack_damage a) (rd w Position_x t, rd w Position_y t)])"
  using attackSystem_striker[OF assms]
  by (simp add: attackSystem_health[OF assms] attackSystem_knockback[OF assms]
        attackSystem_hasKnockback[OF assms] knockOf_def Let_def)


text \<open>
  The scenario of the specification, with its single striker: the target's health drops
  from 50 to 35, its Knockback has force 150, direction 0 and 0.2 seconds remaining, the
  attacker's timer is its cooldown of 1, and the one event is appended.
\<close>

theorem attack_pass_postcondition_witness:
  "distinct (entities scenarioWorld) \<and> strikers scenarioWorld 1 = [0] \<and>
   rd scenarioWorld Attack_timer 0 = 0 \<and> rd scenarioWorld Health_current 1 = 50 \<and>
   rd (attackSystem scenarioWorld) Health_current 1 = 35 \<and>
   hasComponent (attackSystem scenarioWorld) Knockback 1 \<and>
   rd (attackSystem scenarioWorld) Knockback_force 1 = 150 \<and>
   rd (attackSystem scenarioWorld) Knockback_direction 1 = 0 \<and>
   rd (attackSystem scenarioWorld) Knockback_remaining 1 = 0.2 \<and>
   rd (attackSystem scenarioWorld) Attack_timer 0 = 1 \<and>
   filter (damagedBy 0) (drop (length (events scenarioWorld)) (events (attackSystem scenarioWorld)))
     = [MONSTER_DAMAGED 1 0 15 (5, 0)]"
proof -
  have d: "distinct (entities scenarioWorld)" by (simp add: scenario_queries)
  from attack_pass_postcondition[OF d, of 1] d scenario_strikers
  show ?thesis
    by (simp add: Let_def scenario_rd scenarioStore_def atan2_def)
qed


subsection \<open>One event per attacker\<close>

text \<open>
  Claim C5. One run of the attack system appends, for every attacker, at most one
  \<^verbatim>\<open>MONSTER_DAMAGED\<close> event of that attacker; it appends one only when the attacker's
  timer is at most zero after the decay pass; and the entity an event names as struck is the
  attacker's first target in range, in the order of the damageable query and skipping the
  attacker itself.
\<close>

theorem one_strike_per_attacker:
  assumes "distinct (entities w)"
  shows "\<exists>new. events (attackSystem w) = events w @ new \<and>
           (\<forall>a. length (filter (damagedBy a) new) \<le> 1) \<and>
           (\<forall>a. (\<exists>ev \<in> set new. damagedBy a ev) \<longrightarrow> rd (decayCooldowns w) Attack_timer a \<le> 0) \<and>
           (\<forall>t a d p. MONSTER_DAMAGED t a d p \<in> set new \<longrightarrow>
              a \<in> set (attackerQuery w) \<and> firstTarget w a = Some t \<and>
              d = rd w Attack_damage a \<and> p = (rd w Position_x t, rd w Position_y t))"
proof -
  let ?ts = "damageableQuery w" and ?w1 = "decayCooldowns w"
  let ?new = "concat (map (strikeEvents ?ts ?w1) (attackerQuery w))"
  have dist: "distinct (attackerQuery w)"
    using assms by (simp add: attackerQuery_def distinct_defineQuery)
  have sa: "sameArena w ?w1" by (rule decayCooldowns_sameArena)
  have 1: "events (attackSystem w) = events w @ ?new"
    by (rule attackSystem_events[OF assms])
  have 2: "length (filter (damagedBy a) ?new) \<le> 1" for a
    by (rule count_strikes[OF dist])
  have 3: "rd ?w1 Attack_timer a \<le> 0" if "\<exists>ev \<in> set ?new. damagedBy a ev" for a
    using that by (auto dest: strikeEvents_damagedBy_member)
  have 4: "a \<in> set (attackerQuery w) \<and> firstTarget w a = Some t \<and>
           d = rd w Attack_damage a \<and> p = (rd w Position_x t, rd w Position_y t)"
    if "MONSTER_DAMAGED t a d p \<in> set ?new" for t a d p
  proof -
    from that obtain b where b: "b \<in> set (attackerQuery w)"
      and m: "MONSTER_DAMAGED t a d p \<in> set (strikeEvents ?ts ?w1 b)" by auto
    have "inRange ?w1 a = inRange w a" by (rule sameArena_inRange[OF sa])
    with strikeEvents_member[OF m] sa b show ?thesis
      by (auto simp: firstTarget_def sameArena_def)
  qed
  show ?thesis using 1 2 3 4 by blast
qed

text \<open>
  In the scenario world the run appends the one event of attacker 0 striking entity 1.
\<close>

theorem one_strike_per_attacker_witness:
  "distinct (entities scenarioWorld) \<and>
   events (attackSystem scenarioWorld) = [MONSTER_DAMAGED 1 0 15 (5, 0)] \<and>
   length (filter (damagedBy 0) (events (attackSystem scenarioWorld))) \<le> 1 \<and>
   rd (decayCooldowns scenarioWorld) Attack_timer 0 \<le> 0 \<and>
   firstTarget scenarioWorld 0 = Some 1"
proof -
  have h: "distinct (entities scenarioWorld)" by (simp add: scenario_queries)
  have t: "rd (decayCooldowns scenarioWorld) Attack_timer 0 = 0"
    by (simp add: decayCooldowns_def scenario_queries decayTimer_def scenario_rd scenarioStore_def)
  have sa: "sameArena scenarioWorld (decayCooldowns scenarioWorld)"
    by (rule decayCooldowns_sameArena)
  have ev: "events (attackSystem scenarioWorld) = [MONSTER_DAMAGED 1 0 15 (5, 0)]"
    using scenario_firstTarget sa
    by (simp add: attackSystem_events[OF h] scenario_queries strikeEvents_def t
          sameArena_inRange[OF sa] firstTarget_def sameArena_def scenario_rd scenarioStore_def)
  from one_strike_per_attacker[OF h] obtain new where
    n: "events (attackSystem scenarioWorld) = events scenarioWorld @ new" and
    c: "\<forall>a. length (filter (damagedBy a) new) \<le> 1" and
    r: "\<forall>a. (\<exists>ev \<in> set new. damagedBy a ev) \<longrightarrow>
             rd (decayCooldowns scenarioWorld) Attack_timer a \<le> 0" and
    f: "\<forall>t a d p. MONSTER_DAMAGED t a d p \<in> set new \<longrightarrow>
          a \<in> set (attackerQuery scenarioWorld) \<and> firstTarget scenarioWorld a = Some t \<and>
          d = rd scenarioWorld Attack_damage a \<and>
          p = (rd scenarioWorld Position_x t, rd scenarioWorld Position_y t)"
    by blast
  from n ev have new: "new = [MONSTER_DAMAGED 1 0 15 (5, 0)]"
    by (simp add: scenario_queries)
  from c new have 1: "length (filter (damagedBy 0) (events (attackSystem scenarioWorld))) \<le> 1"
    by (simp add: ev)
  from r new have 2: "rd (decayCooldowns scenarioWorld) Attack_timer 0 \<le> 0"
    by (simp add: damagedBy_def)
  from f new have 3: "firstTarget scenarioWorld 0 = Some 1" by simp
  from h ev 1 2 3 show ?thesis by simp
qed

section \<open>Attack: factions\<close>

lemma retag_frame [simp]:
  "rd (retag g w) f e = rd w f e" "entities (retag g w) = entities w"
  "delta (retag g w) = delta w" "events (retag g w) = events w"
  by (simp_all add: retag_def rd_def)

lemma hasComponent_retag:
  "c \<noteq> PlayerControlled \<Longrightarrow> c \<noteq> Enemy \<Longrightarrow> hasComponent (retag g w) c e = hasComponent w c e"
  by (simp add: retag_def hasComponent_def)

lemma attackerQuery_retag [simp]: "attackerQuery (retag g w) = attackerQuery w"
  by (simp add: attackerQuery_def defineQuery_def hasComponent_retag)

lemma damageableQuery_retag [simp]: "damageableQuery (retag g w) = damageableQuery w"
  by (simp add: damageableQuery_def defineQuery_def hasComponent_retag)

lemma wr_retag: "wr f e v (retag g w) = retag g (wr f e v w)"
  by (simp add: wr_def retag_def)

lemma addKnockback_retag:
  "addComponent Knockback e (retag g w) = retag g (addComponent Knockback e w)"
  by (rule GameWorld.equality) (auto simp: addComponent_def retag_def fun_eq_iff)

lemma events_retag: "(retag g w)\<lparr>events := ev\<rparr> = retag g (w\<lparr>events := ev\<rparr>)"
  by (simp add: retag_def)

lemma decayTimer_retag: "decayTimer dt a (retag g w) = retag g (decayTimer dt a w)"
  by (simp add: decayTimer_def wr_retag)

lemma strike_retag:
  "strike a t tx ty dx dy (retag g w) = retag g (strike a t tx ty dx dy w)"
  by (simp add: strike_def Let_def hasComponent_retag wr_retag addKnockback_retag events_retag)

lemma scanTargets_retag:
  "scanTargets a ax ay r ts (retag g w) = retag g (scanTargets a ax ay r ts w)"
  by (induction ts) (simp_all add: Let_def strike_retag)

lemma processAttacker_retag:
  "processAttacker ts a (retag g w) = retag g (processAttacker ts a w)"
  by (simp add: processAttacker_def scanTargets_retag)

lemma fold_retag:
  assumes "\<And>a w. step a (retag g w) = retag g (step a w)"
  shows "fold step xs (retag g w) = retag g (fold step xs w)"
  by (induction xs arbitrary: w) (simp_all add: assms)

lemma attackSystem_retag: "attackSystem (retag g w) = retag g (attackSystem w)"
  by (simp add: attackSystem_def Let_def resolveAttacks_def
        fold_retag[of "decayTimer (delta w)", OF decayTimer_retag]
        fold_retag[of "processAttacker (damageableQuery w)", OF processAttacker_retag])

lemma friendly_facts:
  "entities friendlyWorld = [0, 1]" "delta friendlyWorld = 0"
  "comps friendlyWorld 0 = insert PlayerControlled monsterComponents"
  "comps friendlyWorld (Suc 0) = insert PlayerControlled monsterComponents"
  by (simp_all add: friendlyWorld_def createPlayerMonster_ok[OF fire1]
        createPlayerMonster_ok[OF water1] createPlayerMonster_more[OF fire1]
        createPlayerMonster_more[OF water1] newWorld_facts)

lemma friendly_rd:
  "rd friendlyWorld f 0 = rd (addMonsterComponents 0 100 100 FIRE 1
      \<lparr>health = 100, attack = 15, defense = 5, speed = 120, radius = 25\<rparr> 1
      (newWorld DEFAULT_CONFIG)) f 0"
  "rd friendlyWorld f (Suc 0) = rd (addMonsterComponents (Suc 0) 120 100 WATER 1
      \<lparr>health = 120, attack = 10, defense = 10, speed = 100, radius = 25\<rparr> 1
      (newWorld DEFAULT_CONFIG)) f (Suc 0)"
  by (cases f; simp add: friendlyWorld_def createPlayerMonster_ok[OF fire1]
        createPlayerMonster_ok[OF water1] createPlayerMonster_more[OF fire1]
        addMonsterComponents_rd newWorld_facts)+

lemma hostile_facts:
  "entities hostileWorld = [0, 1]" "delta hostileWorld = 0"
  "comps hostileWorld 0 = insert Enemy (insert AI monsterComponents)"
  "comps hostileWorld (Suc 0) = insert Enemy (insert AI monsterComponents)"
  by (simp_all add: hostileWorld_def createEnemyMonster_ok[OF fire1]
        createEnemyMonster_ok[OF water1] newWorld_facts)

lemma hostile_rd:
  "f \<notin> {AI_state, AI_targetEntity, AI_detectionRange, AI_decisionTimer} \<Longrightarrow>
   rd hostileWorld f 0 = rd (addMonsterComponents 0 100 100 FIRE 1
      \<lparr>health = 100, attack = 15, defense = 5, speed = 120, radius = 25\<rparr> 0
      (newWorld DEFAULT_CONFIG)) f 0"
  "f \<notin> {AI_state, AI_targetEntity, AI_detectionRange, AI_decisionTimer} \<Longrightarrow>
   rd hostileWorld f (Suc 0) = rd (addMonsterComponents (Suc 0) 120 100 WATER 1
      \<lparr>health = 120, attack = 10, defense = 10, speed = 100, radius = 25\<rparr> 0
      (newWorld DEFAULT_CONFIG)) f (Suc 0)"
  by (cases f; simp add: hostileWorld_def createEnemyMonster_ok[OF fire1]
        createEnemyMonster_ok[OF water1] addMonsterComponents_rd newWorld_facts)+

text \<open>
  Claim C10. The attack system selects its target without looking at factions: a ready
  attacker strikes its first target in range whatever tags the two carry, and replacing the
  PlayerControlled and Enemy tags of a world commutes with running the system.
\<close>

theorem attack_ignores_faction:
  assumes "distinct (entities w)" and "a \<in> set (attackerQuery w)"
      and "rd (decayCooldowns w) Attack_timer a \<le> 0" and "firstTarget w a = Some t"
  shows "MONSTER_DAMAGED t a (rd w Attack_damage a) (rd w Position_x t, rd w Position_y t)
           \<in> set (events (attackSystem w)) \<and>
         attackSystem (retag g w) = retag g (attackSystem w)"
proof -
  let ?w1 = "decayCooldowns w"
  have sa: "sameArena w ?w1" by (rule decayCooldowns_sameArena)
  then have "inRange ?w1 a = inRange w a" by (rule sameArena_inRange)
  with assms(4) have "find (inRange ?w1 a) (damageableQuery w) = Some t"
    by (simp add: firstTarget_def)
  from strikeEvents_ready[OF assms(3) this] sa
  have "strikeEvents (damageableQuery w) ?w1 a =
          [MONSTER_DAMAGED t a (rd w Attack_damage a) (rd w Position_x t, rd w Position_y t)]"
    by (simp add: sameArena_def)
  with assms(2) show ?thesis
    by (auto simp: attackSystem_events[OF assms(1)] attackSystem_retag intro!: bexI[of _ a])
qed

text \<open>
  A player monster strikes the player monster next to it, and an enemy strikes the enemy
  next to it.
\<close>

theorem attack_ignores_faction_witness:
  "distinct (entities friendlyWorld) \<and> 0 \<in> set (attackerQuery friendlyWorld) \<and>
   rd (decayCooldowns friendlyWorld) Attack_timer 0 \<le> 0 \<and>
   firstTarget friendlyWorld 0 = Some 1 \<and>
   hasComponent friendlyWorld PlayerControlled 0 \<and> hasComponent friendlyWorld PlayerControlled 1 \<and>
   MONSTER_DAMAGED 1 0 15 (120, 100) \<in> set (events (attackSystem friendlyWorld)) \<and>
   distinct (entities hostileWorld) \<and> 0 \<in> set (attackerQuery hostileWorld) \<and>
   rd (decayCooldowns hostileWorld) Attack_timer 0 \<le> 0 \<and>
   firstTarget hostileWorld 0 = Some 1 \<and>
   hasComponent hostileWorld Enemy 0 \<and> hasComponent hostileWorld Enemy 1 \<and>
   MONSTER_DAMAGED 1 0 15 (120, 100) \<in> set (events (attackSystem hostileWorld))"
proof -
  have f1: "distinct (entities friendlyWorld)" by (simp add: friendly_facts)
  have f2: "0 \<in> set (attackerQuery friendlyWorld)"
    by (simp add: attackerQuery_def defineQuery_def hasComponent_def friendly_facts
          monsterComponents_def)
  have f3: "rd (decayCooldowns friendlyWorld) Attack_timer 0 \<le> 0"
    by (subst decayCooldowns_ready) (simp_all add: friendly_rd addMonsterComponents_rd)
  have f4: "firstTarget friendlyWorld 0 = Some 1"
    by (simp add: firstTarget_def damageableQuery_def defineQuery_def hasComponent_def
          friendly_facts monsterComponents_def inRange_def friendly_rd addMonsterComponents_rd
          sqrt_le_iff_sq)
  have f5: "hasComponent friendlyWorld PlayerControlled 0"
    "hasComponent friendlyWorld PlayerControlled 1"
    by (simp_all add: hasComponent_def friendly_facts)
  have h1: "distinct (entities hostileWorld)" by (simp add: hostile_facts)
  have h2: "0 \<in> set (attackerQuery hostileWorld)"
    by (simp add: attackerQuery_def defineQuery_def hasComponent_def hostile_facts
          monsterComponents_def)
  have h3: "rd (decayCooldowns hostileWorld) Attack_timer 0 \<le> 0"
    by (subst decayCooldowns_ready) (simp_all add: hostile_rd addMonsterComponents_rd)
  have h4: "firstTarget hostileWorld 0 = Some 1"
    by (simp add: firstTarget_def damageableQuery_def defineQuery_def hasComponent_def
          hostile_facts monsterComponents_def inRange_def hostile_rd addMonsterComponents_rd
          sqrt_le_iff_sq)
  have h5: "hasComponent hostileWorld Enemy 0" "hasComponent hostileWorld Enemy 1"
    by (simp_all add: hasComponent_def hostile_facts)
  from attack_ignores_faction[OF f1 f2 f3 f4]
  have fe: "MONSTER_DAMAGED 1 0 15 (120, 100) \<in> set (events (attackSystem friendlyWorld))"
    by (simp add: friendly_rd addMonsterComponents_rd)
  from attack_ignores_faction[OF h1 h2 h3 h4]
  have he: "MONSTER_DAMAGED 1 0 15 (120, 100) \<in> set (events (attackSystem hostileWorld))"
    by (simp add: hostile_rd addMonsterComponents_rd)
  from f1 f2 f3 f4 f5 fe h1 h2 h3 h4 h5 he show ?thesis by simp
qed

section \<open>Knockback\<close>

lemma knockbackStep_other: "e' \<noteq> e \<Longrightarrow> rd (knockbackStep dt e w) f e' = rd w f e'"
  by (simp add: knockbackStep_def Let_def)

lemma knockbackStep_local:
  "(\<And>f. rd w1 f e = rd w2 f e) \<Longrightarrow> rd (knockbackStep dt e w1) f e = rd (knockbackStep dt e w2) f e"
  by (simp add: knockbackStep_def Let_def)

lemma fold_knockbackStep_other:
  "e \<notin> set xs \<Longrightarrow> rd (fold (knockbackStep dt) xs w) f e = rd w f e"
  by (induction xs arbitrary: w) (auto simp: knockbackStep_other)

lemma fold_knockbackStep_in:
  "distinct xs \<Longrightarrow> e \<in> set xs \<Longrightarrow>
   rd (fold (knockbackStep dt) xs w) f e = rd (knockbackStep dt e w) f e"
proof (induction xs arbitrary: w)
  case Nil
  then show ?case by simp
next
  case (Cons x xs)
  show ?case
  proof (cases "x = e")
    case True
    with Cons.prems have "e \<notin> set xs" by simp
    with True show ?thesis by (simp add: fold_knockbackStep_other)
  next
    case False
    with Cons.prems have "distinct xs" "e \<in> set xs" by auto
    from Cons.IH[OF this, of "knockbackStep dt x w"]
    have "rd (fold (knockbackStep dt) (x # xs) w) f e =
          rd (knockbackStep dt e (knockbackStep dt x w)) f e" by simp
    also have "\<dots> = rd (knockbackStep dt e w) f e"
      using False by (intro knockbackStep_local) (simp add: knockbackStep_other)
    finally show ?thesis .
  qed
qed

lemma knockbackSystem_rd:
  assumes "distinct (entities w)" "e \<in> set (knockbackQuery w)"
  shows "rd (knockbackSystem w) f e = rd (knockbackStep (delta w) e w) f e"
  unfolding knockbackSystem_def
  using assms by (intro fold_knockbackStep_in) (simp_all add: knockbackQuery_def distinct_defineQuery)

lemma knock_facts:
  "knockbackQuery knockWorld = [0, 1, 2, 3]" "entities knockWorld = [0, 1, 2, 3]"
  "delta knockWorld = 0.1"
  by (simp_all add: knockbackQuery_def defineQuery_def hasComponent_def knockWorld_def newWorld_def)

lemma knock_rd: "rd knockWorld f e = knockStore f e"
  by (simp add: rd_def knockWorld_def)

text \<open>
  Claim C6 as worded fails. Entity 0 has 0.05 seconds of knockback left before a frame of
  0.1 seconds: its remaining time is positive and the run leaves its force at 100. Entity 1
  has time left before and after the run, and its force of zero does not decrease.
\<close>

theorem knockback_force_not_decreasing:
  "0 \<in> set (knockbackQuery knockWorld) \<and> 1 \<in> set (knockbackQuery knockWorld) \<and>
   rd knockWorld Knockback_remaining 0 > 0 \<and>
   rd (knockbackSystem knockWorld) Knockback_force 0 = rd knockWorld Knockback_force 0 \<and>
   rd knockWorld Knockback_remaining 1 > 0 \<and>
   rd (knockbackSystem knockWorld) Knockback_remaining 1 > 0 \<and>
   rd (knockbackSystem knockWorld) Knockback_force 1 = rd knockWorld Knockback_force 1"
proof -
  have d: "distinct (entities knockWorld)" by (simp add: knock_facts)
  have m: "0 \<in> set (knockbackQuery knockWorld)" "1 \<in> set (knockbackQuery knockWorld)"
    by (simp_all add: knock_facts)
  have a: "rd (knockbackSystem knockWorld) Knockback_force 0 = 100"
    by (subst knockbackSystem_rd[OF d m(1)])
       (simp add: knockbackStep_def Let_def knock_rd knockStore_def knock_facts)
  have b: "rd (knockbackSystem knockWorld) Knockback_remaining 1 = 0.2"
    by (subst knockbackSystem_rd[OF d m(2)])
       (simp add: knockbackStep_def Let_def knock_rd knockStore_def knock_facts)
  have c: "rd (knockbackSystem knockWorld) Knockback_force 1 = 0"
    by (subst knockbackSystem_rd[OF d m(2)])
       (simp add: knockbackStep_def Let_def knock_rd knockStore_def knock_facts)
  from a b c m show ?thesis
    by (simp add: knock_rd knockStore_def)
qed

text \<open>
  Claim C6, amended. For every entity with Position and Knockback a run first takes the
  frame's delta from the remaining time, stores the result, and leaves the direction alone.
  When the remaining time is still positive after that, the run multiplies the force by
  0.9, which lowers it strictly when the force is positive, and displaces the position by
  \<open>(cos direction, sin direction) \<times> force \<times> delta\<close>; otherwise the run changes neither the
  force nor the position. In particular a component whose remaining time is at most zero
  stays inert under every frame of non-negative delta.
\<close>

theorem knockback_decay_inert:
  assumes "distinct (entities w)" and "e \<in> set (knockbackQuery w)"
  shows "rd (knockbackSystem w) Knockback_remaining e = rd w Knockback_remaining e - delta w \<and>
         rd (knockbackSystem w) Knockback_direction e = rd w Knockback_direction e \<and>
         (rd w Knockback_remaining e - delta w > 0 \<longrightarrow>
            rd (knockbackSystem w) Knockback_force e = rd w Knockback_force e * 0.9 \<and>
            (rd w Knockback_force e > 0 \<longrightarrow>
               rd (knockbackSystem w) Knockback_force e < rd w Knockback_force e) \<and>
            rd (knockbackSystem w) Position_x e =
              rd w Position_x e + cos (rd w Knockback_direction e) * rd w Knockback_force e * delta w \<and>
            rd (knockbackSystem w) Position_y e =
              rd w Position_y e + sin (rd w Knockback_direction e) * rd w Knockback_force e * delta w) \<and>
         (rd w Knockback_remaining e - delta w \<le> 0 \<longrightarrow>
            rd (knockbackSystem w) Knockback_force e = rd w Knockback_force e \<and>
            rd (knockbackSystem w) Position_x e = rd w Position_x e \<and>
            rd (knockbackSystem w) Position_y e = rd w Position_y e) \<and>
         (rd w Knockback_remaining e \<le> 0 \<and> 0 \<le> delta w \<longrightarrow>
            rd (knockbackSystem w) Knockback_force e = rd w Knockback_force e \<and>
            rd (knockbackSystem w) Position_x e = rd w Position_x e \<and>
            rd (knockbackSystem w) Position_y e = rd w Position_y e \<and>
            rd (knockbackSystem w) Knockback_remaining e \<le> 0)"
  by (simp add: knockbackSystem_rd[OF assms] knockbackStep_def Let_def)

text \<open>
  Entity 2 has 0.2 seconds left: 0.1 seconds remain after the run, its force drops from 150
  to 135 and it moves from 5 to 20. Entity 3 has no time left: its remaining time goes from
  \<open>-0.1\<close> to \<open>-0.2\<close> and it keeps its force and its place.
\<close>

theorem knockback_decay_inert_witness:
  "distinct (entities knockWorld) \<and> 2 \<in> set (knockbackQuery knockWorld) \<and>
   3 \<in> set (knockbackQuery knockWorld) \<and>
   rd knockWorld Knockback_remaining 2 - delta knockWorld > 0 \<and>
   rd knockWorld Knockback_force 2 = 150 \<and>
   rd (knockbackSystem knockWorld) Knockback_remaining 2 = 0.1 \<and>
   rd (knockbackSystem knockWorld) Knockback_force 2 = 135 \<and>
   rd (knockbackSystem knockWorld) Position_x 2 = 20 \<and>
   rd knockWorld Knockback_remaining 3 \<le> 0 \<and> 0 \<le> delta knockWorld \<and>
   rd (knockbackSystem knockWorld) Knockback_remaining 3 = - 0.2 \<and>
   rd (knockbackSystem knockWorld) Knockback_force 3 = 50 \<and>
   rd (knockbackSystem knockWorld) Position_x 3 = 0"
proof -
  have d: "distinct (entities knockWorld)" by (simp add: knock_facts)
  have m: "2 \<in> set (knockbackQuery knockWorld)" "3 \<in> set (knockbackQuery knockWorld)"
    by (simp_all add: knock_facts)
  from knockback_decay_inert[OF d m(1)] knockback_decay_inert[OF d m(2)] d m
  show ?thesis
    by (simp add: knock_rd knockStore_def knock_facts)
qed

section \<open>Health\<close>

lemma markDead_frame [simp]:
  "entities (markDead e w) = entities w" "comps (markDead e w) = comps w"
  "store (markDead e w) = store w" "playerEntities (markDead e w) = playerEntities w"
  "events (markDead e w) = events w"
  by (simp_all add: markDead_def)

lemma fold_markDead:
  "fold markDead xs w =
     w\<lparr>deadEntities := deadEntities w @ filter (\<lambda>e. rd w Health_current e \<le> 0) xs\<rparr>"
proof (induction xs arbitrary: w)
  case Nil
  then show ?case by simp
next
  case (Cons x xs)
  show ?case
    by (simp add: Cons.IH) (simp add: markDead_def rd_def)
qed

lemmas drainDead_unfold = drainDead.simps
declare drainDead.simps [simp del]

lemma removeEntity_frame [simp]:
  "store (removeEntity e w) = store w" "playerEntities (removeEntity e w) = playerEntities w"
  "events (removeEntity e w) = events w" "deadEntities (removeEntity e w) = deadEntities w"
  "entities (removeEntity e w) = removeAll e (entities w)"
  by (simp_all add: removeEntity_def)

lemma comps_removeEntity:
  "comps (removeEntity e w) e' = (if e' = e \<and> e \<in> set (entities w) then {} else comps w e')"
  by (simp add: removeEntity_def)

lemma drainDead_frame:
  "deadEntities (drainDead w) = [] \<and> store (drainDead w) = store w \<and>
   playerEntities (drainDead w) = playerEntities w \<and> events (drainDead w) = events w \<and>
   entities (drainDead w) = filter (\<lambda>e. e \<notin> set (deadEntities w)) (entities w) \<and>
   (\<forall>e. comps (drainDead w) e =
         (if e \<in> set (deadEntities w) \<and> e \<in> set (entities w) then {} else comps w e))"
proof (induction w rule: drainDead.induct)
  case (1 w)
  show ?case
  proof (cases "deadEntities w = []")
    case True
    then show ?thesis by (simp add: drainDead_unfold[of w])
  next
    case False
    let ?x = "last (deadEntities w)" and ?xs = "butlast (deadEntities w)"
    let ?w1 = "removeEntity ?x (w\<lparr>deadEntities := ?xs\<rparr>)"
    from False have split: "deadEntities w = ?xs @ [?x]" by simp
    from False have step: "drainDead w = drainDead ?w1" by (simp add: drainDead_unfold[of w])
    from False have IH: "deadEntities (drainDead ?w1) = [] \<and> store (drainDead ?w1) = store ?w1 \<and>
      playerEntities (drainDead ?w1) = playerEntities ?w1 \<and> events (drainDead ?w1) = events ?w1 \<and>
      entities (drainDead ?w1) = filter (\<lambda>e. e \<notin> set (deadEntities ?w1)) (entities ?w1) \<and>
      (\<forall>e. comps (drainDead ?w1) e =
         (if e \<in> set (deadEntities ?w1) \<and> e \<in> set (entities ?w1) then {} else comps ?w1 e))"
      by (intro "1.IH") simp
    have mem: "e \<in> set (deadEntities w) \<longleftrightarrow> e = ?x \<or> e \<in> set ?xs" for e
      by (subst split) auto
    have ents: "filter (\<lambda>e. e \<notin> set ?xs) (removeAll ?x (entities w)) =
                filter (\<lambda>e. e \<notin> set (deadEntities w)) (entities w)"
      by (simp add: removeAll_filter_not_eq mem) (metis)
    show ?thesis
      unfolding step using IH ents
      by (auto simp: comps_removeEntity mem)
  qed
qed

lemma healthSystem_fold:
  "healthSystem w =
     drainDead (w\<lparr>deadEntities := deadEntities w @
                    filter (\<lambda>e. rd w Health_current e \<le> 0) (healthQuery w)\<rparr>)"
  by (simp add: healthSystem_def fold_markDead)

lemma healthSystem_frame:
  "deadEntities (healthSystem w) = []" "store (healthSystem w) = store w"
  "playerEntities (healthSystem w) = playerEntities w" "events (healthSystem w) = events w"
  by (simp_all add: healthSystem_fold drainDead_frame)

lemma set_healthQuery: "set (healthQuery w) = {e \<in> set (entities w). hasComponent w Health e}"
  by (simp add: healthQuery_def set_defineQuery)

lemma healthSystem_entities:
  "entities (healthSystem w) =
     filter (\<lambda>e. e \<notin> set (deadEntities w) \<and> \<not> depleted w e) (entities w)"
  by (simp add: healthSystem_fold drainDead_frame set_healthQuery depleted_def rd_def
      cong: filter_cong)

lemma healthSystem_comps:
  "e \<in> set (entities (healthSystem w)) \<Longrightarrow> comps (healthSystem w) e = comps w e"
  by (auto simp: healthSystem_fold drainDead_frame set_healthQuery rd_def)

lemma deadEntities_update_same: "deadEntities w = xs \<Longrightarrow> w\<lparr>deadEntities := xs\<rparr> = w"
  by auto

text \<open>
  The queue of dead entities is empty in a new world, and the health system is the only
  system here that writes it.
\<close>

lemma strike_deadEntities: "deadEntities (strike a t tx ty dx dy w) = deadEntities w"
  by (simp add: strike_def Let_def)

lemma scanTargets_deadEntities: "deadEntities (scanTargets a ax ay r ts w) = deadEntities w"
  by (induction ts) (simp_all add: Let_def strike_deadEntities)

lemma attackSystem_deadEntities: "deadEntities (attackSystem w) = deadEntities w"
proof -
  have d: "deadEntities (fold (decayTimer dt) xs v) = deadEntities v" for dt xs v
    by (induction xs arbitrary: v) (simp_all add: decayTimer_def)
  have r: "deadEntities (fold (processAttacker ts) xs v) = deadEntities v" for ts xs v
    by (induction xs arbitrary: v) (simp_all add: processAttacker_def scanTargets_deadEntities)
  show ?thesis by (simp add: attackSystem_def Let_def resolveAttacks_def d r)
qed

lemma knockbackSystem_deadEntities: "deadEntities (knockbackSystem w) = deadEntities w"
proof -
  have "deadEntities (fold (knockbackStep dt) xs v) = deadEntities v" for dt xs v
    by (induction xs arbitrary: v) (simp_all add: knockbackStep_def Let_def)
  then show ?thesis by (simp add: knockbackSystem_def)
qed

lemma healthSystem_idem: "healthSystem (healthSystem w) = healthSystem w"
proof -
  let ?w' = "healthSystem w"
  have "filter (\<lambda>e. rd ?w' Health_current e \<le> 0) (healthQuery ?w') = []"
  proof -
    have "rd ?w' Health_current e > 0" if "e \<in> set (healthQuery ?w')" for e
    proof -
      from that have a: "e \<in> set (entities ?w')" and h: "hasComponent ?w' Health e"
        by (simp_all add: set_healthQuery)
      from a have "\<not> depleted w e" by (simp add: healthSystem_entities)
      moreover from h a have "hasComponent w Health e"
        by (simp add: hasComponent_def healthSystem_comps)
      ultimately show ?thesis by (simp add: depleted_def rd_def healthSystem_frame)
    qed
    then show ?thesis by (auto simp: filter_empty_conv not_le)
  qed
  then have "healthSystem ?w' = drainDead ?w'"
    by (simp add: healthSystem_fold[of ?w'] healthSystem_frame deadEntities_update_same)
  also have "\<dots> = ?w'"
    by (simp add: drainDead_unfold[of ?w'] healthSystem_frame)
  finally show ?thesis .
qed

lemma player_facts:
  "entities playerWorld = [0]" "playerEntities playerWorld = [0]"
  "comps playerWorld 0 = insert PlayerControlled monsterComponents"
  by (simp_all add: playerWorld_def createPlayerMonster_ok[OF fire1] newWorld_facts)

text \<open>
  Claim C7. On a world whose queue of dead entities is empty, as the constructor and every
  run of the health system leave it, one run removes exactly the entities that carry Health
  with a current health of at most zero; a second run changes nothing; and the queue is empty
  afterwards.
\<close>

theorem healthSystem_removes_depleted:
  assumes "deadEntities w = []"
  shows "entities (healthSystem w) = filter (\<lambda>e. \<not> depleted w e) (entities w) \<and>
         healthSystem (healthSystem w) = healthSystem w \<and>
         deadEntities (healthSystem w) = []"
  using assms by (simp add: healthSystem_entities healthSystem_idem healthSystem_frame)

text \<open>
  In the wounded world the run removes entity 1 and keeps entity 0.
\<close>

theorem healthSystem_removes_depleted_witness:
  "deadEntities woundedWorld = [] \<and> entities woundedWorld = [0, 1] \<and>
   entities (healthSystem woundedWorld) = [0] \<and>
   healthSystem (healthSystem woundedWorld) = healthSystem woundedWorld \<and>
   deadEntities (healthSystem woundedWorld) = []"
proof -
  have q: "deadEntities woundedWorld = []" "entities woundedWorld = [0, 1]"
    by (simp_all add: woundedWorld_def scenario_queries)
  have d: "\<not> depleted woundedWorld 0" "depleted woundedWorld 1"
    by (simp_all add: depleted_def woundedWorld_def scenario_rd scenarioStore_def
          hasComponent_def scenario_comps)
  from healthSystem_removes_depleted[OF q(1)] q d show ?thesis by simp
qed

text \<open>
  Claim C1 at a failing input. The only player monster of a new game has its health at
  \<open>-5\<close>. The health system removes it from the world and leaves its id in
  \<open>playerEntities\<close>; \<open>movePlayerMonster\<close>, whose check of that list is meant to ensure
  the entity exists, then still writes the velocity of the removed id.
\<close>

theorem dead_player_stays_listed:
  "playerEntities slainWorld = [0] \<and> entities slainWorld = [0] \<and>
   rd slainWorld Health_current 0 \<le> 0 \<and>
   entities (healthSystem slainWorld) = [] \<and>
   playerEntities (healthSystem slainWorld) = [0] \<and>
   rd (movePlayerMonster 0 3 4 (healthSystem slainWorld)) Velocity_x 0 = 3"
proof -
  have p: "playerEntities slainWorld = [0]" "entities slainWorld = [0]"
    "deadEntities slainWorld = []"
    by (simp_all add: slainWorld_def player_facts playerWorld_def
          createPlayerMonster_def addEntity_def fire1 Let_def newWorld_def)
  have dep: "depleted slainWorld 0"
    by (simp add: depleted_def slainWorld_def hasComponent_def player_facts
          monsterComponents_def)
  have e: "entities (healthSystem slainWorld) = []"
    by (simp add: healthSystem_entities p dep)
  have pl: "playerEntities (healthSystem slainWorld) = [0]"
    by (simp add: healthSystem_frame p)
  show ?thesis
    by (simp add: p e pl movePlayerMonster_def) (simp add: slainWorld_def)
qed

end
